theory Spec2Isabelle
  imports Main "HOL-Library.Word"
begin

section \<open>JavaScript strings\<close>

text \<open>
  A JavaScript string is a sequence of UTF-16 code units. The regular expressions of
  \<^verbatim>\<open>handleCreateNewEntry\<close> have no \<^verbatim>\<open>u\<close> flag, so they work on code units, and
  every character they name lies in the Basic Multilingual Plane: one code unit each.
  \<open>utf16\<close> embeds an ASCII (or Latin-1) literal.
\<close>

type_synonym code_unit = "16 word"

type_synonym jsstring = "code_unit list"

definition utf16 :: "string \<Rightarrow> jsstring" where
  "utf16 s = map of_char s"

text \<open>
  The code units that \<^verbatim>\<open>String.prototype.trim\<close> strips and that \<^verbatim>\<open>\s\<close> matches:
  ECMAScript's WhiteSpace and LineTerminator productions.
\<close>

definition js_ws :: "code_unit \<Rightarrow> bool" where
  "js_ws c =
     (c = 0x09 \<or> c = 0x0A \<or> c = 0x0B \<or> c = 0x0C \<or> c = 0x0D \<or> c = 0x20 \<or> c = 0xA0
      \<or> c = 0x1680 \<or> (0x2000 \<le> c \<and> c \<le> 0x200A) \<or> c = 0x2028 \<or> c = 0x2029
      \<or> c = 0x202F \<or> c = 0x205F \<or> c = 0x3000 \<or> c = 0xFEFF)"

definition trim :: "jsstring \<Rightarrow> jsstring" where
  "trim s = rev (dropWhile js_ws (rev (dropWhile js_ws s)))"

text \<open>
  The character class \<^verbatim>\<open>[<>:"/\\|?*]\<close>:
  \<^verbatim>\<open><\<close> 3C, \<^verbatim>\<open>>\<close> 3E, \<^verbatim>\<open>:\<close> 3A, the double quote 22, \<^verbatim>\<open>/\<close> 2F, the backslash 5C,
  \<^verbatim>\<open>|\<close> 7C, \<^verbatim>\<open>?\<close> 3F, \<^verbatim>\<open>*\<close> 2A.
\<close>

definition forbidden :: "code_unit \<Rightarrow> bool" where
  "forbidden c =
     (c = 0x3C \<or> c = 0x3E \<or> c = 0x3A \<or> c = 0x22 \<or> c = 0x2F \<or> c = 0x5C \<or> c = 0x7C
      \<or> c = 0x3F \<or> c = 0x2A)"

text \<open>\<^verbatim>\<open>.replace(/[<>:"/\\|?*]/g, "-")\<close>: every match is one code unit, replaced by 2D.\<close>

definition replace_forbidden :: "jsstring \<Rightarrow> jsstring" where
  "replace_forbidden s = map (\<lambda>c. if forbidden c then 0x2D else c) s"

text \<open>
  \<^verbatim>\<open>.replace(/\s+/g, " ")\<close>: scanning from the left, a maximal run of whitespace is
  replaced by one space, any other code unit is kept.
\<close>

function collapse_ws :: "jsstring \<Rightarrow> jsstring" where
  "collapse_ws [] = []"
| "collapse_ws (c # cs) =
     (if js_ws c then 0x20 # collapse_ws (dropWhile js_ws cs) else c # collapse_ws cs)"
  by pat_completeness auto
termination
  by (relation "measure length") (auto simp: length_dropWhile_le less_Suc_eq_le)

definition sanitizedTitle :: "jsstring \<Rightarrow> jsstring" where
  "sanitizedTitle newEntryTitle = collapse_ws (replace_forbidden (trim newEntryTitle))"

definition titled_filename :: "jsstring \<Rightarrow> jsstring" where
  "titled_filename newEntryTitle = sanitizedTitle newEntryTitle @ utf16 ''.md''"

text \<open>
  The sanitization as the specification words it, for comparison: the disallowed
  characters replaced, the whitespace runs collapsed, \<^verbatim>\<open>.md\<close> appended.
\<close>

definition spec_titled_filename :: "jsstring \<Rightarrow> jsstring" where
  "spec_titled_filename t = collapse_ws (replace_forbidden t) @ utf16 ''.md''"

text \<open>JavaScript truthiness of a \<^verbatim>\<open>string | null\<close>: \<^verbatim>\<open>null\<close> and \<^verbatim>\<open>""\<close> are falsy.\<close>

definition truthy :: "jsstring option \<Rightarrow> bool" where
  "truthy d = (d \<noteq> None \<and> d \<noteq> Some [])"

section \<open>The data model\<close>

datatype entry_kind = daily | titled

record JournalEntry =
  filename :: jsstring
  entry_type :: entry_kind
  title :: jsstring
  date :: "jsstring option"

text \<open>
  React compares the dependencies of an effect with \<^verbatim>\<open>Object.is\<close>: strings by value,
  objects by identity. An entry object is therefore a pair of its identity and its
  fields; every object literal and every entry of a fetched list gets a fresh identity.
\<close>

type_synonym entry_obj = "nat \<times> JournalEntry"

datatype SaveStatus = saved | saving | unsaved

text \<open>
  What the memoized \<^verbatim>\<open>saveEntry\<close> callback of one render has captured:
  \<^verbatim>\<open>journalDirectory\<close>, \<^verbatim>\<open>currentEntry\<close> and \<^verbatim>\<open>content\<close> (and \<^verbatim>\<open>loadEntries\<close>, which
  is determined by \<^verbatim>\<open>journalDirectory\<close>).
\<close>

record closure =
  c_journalDirectory :: "jsstring option"
  c_currentEntry :: "entry_obj option"
  c_content :: jsstring

text \<open>The commands of the Tauri backend that the component invokes.\<close>

datatype command =
    get_journal_directory
  | get_dark_mode
  | set_dark_mode bool
  | set_journal_directory jsstring
  | list_journal_entries jsstring
  | load_journal jsstring jsstring
  | save_journal jsstring jsstring jsstring
  | delete_journal jsstring jsstring

text \<open>
  \<open>load_journal filename directory\<close>, \<open>save_journal filename content directory\<close>,
  \<open>delete_journal filename directory\<close>. What the component does to the outside:
\<close>

datatype action =
    Invoke command
  | OpenDialog
  | Confirm jsstring
  | ConsoleError string

text \<open>
  An asynchronous function suspended at an \<^verbatim>\<open>await\<close>, with what its continuation has
  captured. \<open>AwaitList True\<close> is the \<^verbatim>\<open>loadEntries\<close> call that \<^verbatim>\<open>handleDeleteEntry\<close>
  awaits before \<^verbatim>\<open>handleGoToToday\<close>; \<open>AwaitDelete d\<close> carries the directory captured by
  the \<^verbatim>\<open>loadEntries\<close> of that handler.
\<close>

datatype cont =
    AwaitGetJournalDirectory
  | AwaitGetDarkMode
  | AwaitOpen
  | AwaitSetJournalDirectory
  | AwaitList bool
  | AwaitLoad
  | AwaitSave closure
  | AwaitDelete "jsstring option"

text \<open>How a promise settles: rejected, or resolved with a value of the awaited type.\<close>

datatype outcome =
    Failed
  | Done
  | GotString "jsstring option"
  | GotBool "bool option"
  | GotEntries "JournalEntry list"

text \<open>
  The state variables of \<^verbatim>\<open>App\<close>, and below them what lives outside React's state:
  the pending debounce timer (milliseconds left, and the \<^verbatim>\<open>saveEntry\<close> it will call),
  the suspended asynchronous functions by promise number, the next unused number (for
  promises and object identities), and what the last event did to the outside.
\<close>

record app =
  content :: jsstring
  journalDirectory :: "jsstring option"
  saveStatus :: SaveStatus
  showSettings :: bool
  showSidebar :: bool
  showNewEntryModal :: bool
  newEntryTitle :: jsstring
  entries :: "entry_obj list"
  currentEntry :: "entry_obj option"
  darkMode :: bool
  settingsLoaded :: bool
  timer :: "(nat \<times> closure) option"
  pending :: "(nat \<times> cont) list"
  fresh :: nat
  emitted :: "action list"

section \<open>The operations of the component\<close>

text \<open>
  The component is modelled as a state machine on \<open>app\<close>, driven by events: an intent
  of the user, time passing, or a promise of the backend (or of the directory dialog)
  settling. What is taken from React, the timers and the promises of the platform:
  \<^item> a handler, a timer callback or a continuation runs to its next \<^verbatim>\<open>await\<close> or its end;
    the state updates it made are applied together and followed by a render;
  \<^item> after a render, the effects of which a dependency changed run in the order of their
    declaration, each reading the values of that render; their cleanups run first; the
    updates they make are followed by another render;
  \<^item> \<^verbatim>\<open>setTimeout(f, 1000)\<close> calls \<^verbatim>\<open>f\<close> once 1000 ms have passed, unless \<^verbatim>\<open>clearTimeout\<close>
    came first;
  \<^item> promises settle one at a time, in any order, each at most once.

  The date (\<^verbatim>\<open>today\<close>, read from the clock at every render) is a parameter, kept fixed
  through a run. Handlers can be called in any state: that the markup hides a button in
  some states is not modelled, so the theorems cover more runs than the interface allows.
\<close>

definition emit :: "action \<Rightarrow> app \<Rightarrow> app" where
  "emit x s = s\<lparr>emitted := emitted s @ [x]\<rparr>"

definition await :: "action \<Rightarrow> cont \<Rightarrow> app \<Rightarrow> app" where
  "await x k s =
     s\<lparr>emitted := emitted s @ [x], pending := pending s @ [(fresh s, k)],
       fresh := Suc (fresh s)\<rparr>"

definition todayEntry :: "jsstring \<Rightarrow> JournalEntry" where
  "todayEntry today =
     \<lparr>filename = today @ utf16 ''.md'', entry_type = daily, title = today,
      date = Some today\<rparr>"

text \<open>\<^verbatim>\<open>loadEntries\<close>, with the \<^verbatim>\<open>journalDirectory\<close> its \<^verbatim>\<open>useCallback\<close> captured.\<close>

definition loadEntries :: "bool \<Rightarrow> jsstring option \<Rightarrow> app \<Rightarrow> app" where
  "loadEntries awaited d s =
     (case d of
        None \<Rightarrow> s
      | Some dir \<Rightarrow>
          if dir = [] then s
          else await (Invoke (list_journal_entries dir)) (AwaitList awaited) s)"

definition setEntries :: "JournalEntry list \<Rightarrow> app \<Rightarrow> app" where
  "setEntries es s =
     s\<lparr>entries := zip [fresh s ..< fresh s + length es] es,
       fresh := fresh s + length es\<rparr>"

text \<open>\<^verbatim>\<open>saveEntry\<close>, called by the debounce timer with the values its render captured.\<close>

definition saveEntry :: "closure \<Rightarrow> app \<Rightarrow> app" where
  "saveEntry c s =
     (case (c_journalDirectory c, c_currentEntry c) of
        (Some dir, Some (r, e)) \<Rightarrow>
          if dir = [] then s
          else await (Invoke (save_journal (filename e) (c_content c) dir)) (AwaitSave c)
                 (s\<lparr>saveStatus := saving\<rparr>)
      | _ \<Rightarrow> s)"

definition handleSelectDirectory :: "app \<Rightarrow> app" where
  "handleSelectDirectory s = await OpenDialog AwaitOpen s"

definition handleSelectEntry :: "nat \<Rightarrow> app \<Rightarrow> app" where
  "handleSelectEntry i s =
     (if i < length (entries s) then s\<lparr>currentEntry := Some (entries s ! i)\<rparr> else s)"

definition handleGoToToday :: "jsstring \<Rightarrow> app \<Rightarrow> app" where
  "handleGoToToday today s =
     s\<lparr>currentEntry := Some (fresh s, todayEntry today), fresh := Suc (fresh s)\<rparr>"

definition handleCreateNewEntry :: "app \<Rightarrow> app" where
  "handleCreateNewEntry s =
     (if trim (newEntryTitle s) = [] then s
      else s\<lparr>currentEntry :=
                Some (fresh s,
                  \<lparr>filename = titled_filename (newEntryTitle s), entry_type = titled,
                   title = sanitizedTitle (newEntryTitle s), date = None\<rparr>),
              fresh := Suc (fresh s),
              content := [],
              newEntryTitle := [],
              showNewEntryModal := False\<rparr>)"

text \<open>
  \<^verbatim>\<open>handleDeleteEntry\<close>; the argument is the answer of \<^verbatim>\<open>window.confirm\<close>, whose message
  is \<^verbatim>\<open>Delete "title"?\<close> (22 is the double quote, 3F the question mark).
\<close>

definition confirm_message :: "JournalEntry \<Rightarrow> jsstring" where
  "confirm_message e = utf16 ''Delete '' @ [0x22] @ title e @ [0x22, 0x3F]"

definition handleDeleteEntry :: "bool \<Rightarrow> app \<Rightarrow> app" where
  "handleDeleteEntry confirmed s =
     (case (journalDirectory s, currentEntry s) of
        (Some dir, Some (r, e)) \<Rightarrow>
          if dir = [] then s
          else if entry_type e = daily then s
          else
            (let s1 = emit (Confirm (confirm_message e)) s
             in if \<not> confirmed then s1
                else await (Invoke (delete_journal (filename e) dir))
                       (AwaitDelete (journalDirectory s)) s1)
      | _ \<Rightarrow> s)"

text \<open>
  The continuations. \<open>None\<close>: the outcome is not of the type that the suspended function
  awaits, which the typed backend never produces.
\<close>

fun resume :: "jsstring \<Rightarrow> cont \<Rightarrow> outcome \<Rightarrow> app \<Rightarrow> app option" where
  "resume today AwaitGetJournalDirectory (GotString dir) s =
     Some (await (Invoke get_dark_mode) AwaitGetDarkMode
            (if truthy dir then s\<lparr>journalDirectory := dir\<rparr> else s))"
| "resume today AwaitGetJournalDirectory Failed s =
     Some ((emit (ConsoleError ''Failed to load settings:'') s)\<lparr>settingsLoaded := True\<rparr>)"
| "resume today AwaitGetDarkMode (GotBool savedDarkMode) s =
     Some ((case savedDarkMode of None \<Rightarrow> s | Some b \<Rightarrow> s\<lparr>darkMode := b\<rparr>)
            \<lparr>settingsLoaded := True\<rparr>)"
| "resume today AwaitGetDarkMode Failed s =
     Some ((emit (ConsoleError ''Failed to load settings:'') s)\<lparr>settingsLoaded := True\<rparr>)"
| "resume today AwaitOpen (GotString selected) s =
     Some (case selected of
             None \<Rightarrow> s
           | Some dir \<Rightarrow>
               if dir = [] then s
               else await (Invoke (set_journal_directory dir)) AwaitSetJournalDirectory
                      (s\<lparr>journalDirectory := selected\<rparr>))"
| "resume today AwaitOpen Failed s =
     Some (emit (ConsoleError ''Failed to select directory:'') s)"
| "resume today AwaitSetJournalDirectory Done s = Some s"
| "resume today AwaitSetJournalDirectory Failed s =
     Some (emit (ConsoleError ''Failed to select directory:'') s)"
| "resume today (AwaitList awaited) (GotEntries entryList) s =
     Some (let s1 = setEntries entryList s
           in if awaited then handleGoToToday today s1 else s1)"
| "resume today (AwaitList awaited) Failed s =
     Some (let s1 = emit (ConsoleError ''Failed to load entries list:'') s
           in if awaited then handleGoToToday today s1 else s1)"
| "resume today AwaitLoad (GotString entry) s =
     Some (s\<lparr>content := (case entry of None \<Rightarrow> [] | Some t \<Rightarrow> t), saveStatus := saved\<rparr>)"
| "resume today AwaitLoad Failed s =
     Some (emit (ConsoleError ''Failed to load journal entry:'') s)"
| "resume today (AwaitSave c) Done s =
     Some (let s1 = s\<lparr>saveStatus := saved\<rparr>
           in if trim (c_content c) \<noteq> [] then loadEntries False (c_journalDirectory c) s1
              else s1)"
| "resume today (AwaitSave c) Failed s =
     Some ((emit (ConsoleError ''Failed to save journal entry:'') s)
            \<lparr>saveStatus := unsaved\<rparr>)"
| "resume today (AwaitDelete d) Done s =
     Some (if truthy d then loadEntries True d s else handleGoToToday today s)"
| "resume today (AwaitDelete d) Failed s =
     Some (emit (ConsoleError ''Failed to delete entry:'') s)"
| "resume today _ _ s = None"

definition settle :: "jsstring \<Rightarrow> nat \<Rightarrow> outcome \<Rightarrow> app \<Rightarrow> app" where
  "settle today p r s =
     (case map_of (pending s) p of
        None \<Rightarrow> s
      | Some k \<Rightarrow>
          (case resume today k r (s\<lparr>pending := filter (\<lambda>q. fst q \<noteq> p) (pending s)\<rparr>) of
             None \<Rightarrow> s
           | Some s' \<Rightarrow> s'))"

text \<open>
  Time passing: the timer set by \<^verbatim>\<open>setTimeout(..., 1000)\<close> fires once its delay has
  passed, and calls the \<^verbatim>\<open>saveEntry\<close> of the render that set it.
\<close>

definition elapse :: "nat \<Rightarrow> app \<Rightarrow> app" where
  "elapse n s =
     (case timer s of
        None \<Rightarrow> s
      | Some (left, c) \<Rightarrow>
          if n < left then s\<lparr>timer := Some (left - n, c)\<rparr>
          else saveEntry c (s\<lparr>timer := None\<rparr>))"

section \<open>Effects\<close>

text \<open>
  The bodies of the \<^verbatim>\<open>useEffect\<close> calls. Each reads the state variables of the render
  it belongs to (\<open>cur\<close>) and queues its updates on the state being built (\<open>acc\<close>).
\<close>

definition defaultEntry :: "jsstring \<Rightarrow> app \<Rightarrow> app \<Rightarrow> app" where
  "defaultEntry today cur acc =
     (if truthy (journalDirectory cur) \<and> currentEntry cur = None
      then handleGoToToday today acc else acc)"

definition loadEntry :: "app \<Rightarrow> app \<Rightarrow> app" where
  "loadEntry cur acc =
     (case (journalDirectory cur, currentEntry cur) of
        (Some dir, Some (r, e)) \<Rightarrow>
          if dir = [] then acc
          else await (Invoke (load_journal (filename e) dir)) AwaitLoad acc
      | _ \<Rightarrow> acc)"

definition autoSave :: "app \<Rightarrow> app \<Rightarrow> app" where
  "autoSave cur acc =
     (if \<not> truthy (journalDirectory cur) \<or> currentEntry cur = None then acc
      else acc\<lparr>saveStatus := unsaved,
               timer := Some (1000,
                 \<lparr>c_journalDirectory = journalDirectory cur,
                  c_currentEntry = currentEntry cur,
                  c_content = content cur\<rparr>)\<rparr>)"

definition saveDarkMode :: "app \<Rightarrow> app \<Rightarrow> app" where
  "saveDarkMode cur acc =
     (if settingsLoaded cur then emit (Invoke (set_dark_mode (darkMode cur))) acc else acc)"

text \<open>
  One commit: \<open>prev\<close> is the previous render, \<open>cur\<close> the new one. An effect runs when one
  of its dependencies differs; the cleanup of the debounce effect (\<^verbatim>\<open>clearTimeout\<close>)
  runs before the bodies. The memoized \<^verbatim>\<open>loadEntries\<close> changes with \<^verbatim>\<open>journalDirectory\<close>,
  \<^verbatim>\<open>saveEntry\<close> with \<^verbatim>\<open>journalDirectory\<close>, \<^verbatim>\<open>currentEntry\<close> or \<^verbatim>\<open>content\<close>.
\<close>

definition effects :: "jsstring \<Rightarrow> app \<Rightarrow> app \<Rightarrow> app" where
  "effects today prev cur =
     (let dirC = (journalDirectory prev \<noteq> journalDirectory cur);
          entC = (map_option fst (currentEntry prev) \<noteq> map_option fst (currentEntry cur));
          conC = (content prev \<noteq> content cur);
          thmC = (darkMode prev \<noteq> darkMode cur \<or> settingsLoaded prev \<noteq> settingsLoaded cur);
          s0 = (if conC \<or> dirC \<or> entC then cur\<lparr>timer := None\<rparr> else cur);
          s1 = (if dirC then loadEntries False (journalDirectory cur) s0 else s0);
          s2 = (if dirC \<or> entC then defaultEntry today cur s1 else s1);
          s3 = (if dirC \<or> entC then loadEntry cur s2 else s2);
          s4 = (if conC \<or> dirC \<or> entC then autoSave cur s3 else s3)
      in if thmC then saveDarkMode cur s4 else s4)"

text \<open>
  The updates that the effects queued cause one more render, whose effects run in turn.
  Two commits reach a state where a third would run no effect (\<open>render_quiescent\<close>).
\<close>

definition render :: "jsstring \<Rightarrow> app \<Rightarrow> app \<Rightarrow> app" where
  "render today prev cur = (let s1 = effects today prev cur in effects today cur s1)"

section \<open>Events\<close>

datatype event =
    Edit jsstring
  | Elapse nat
  | Settle nat outcome
  | SelectEntry nat
  | GoToToday
  | SetNewEntryTitle jsstring
  | CreateNewEntry
  | DeleteEntry bool
  | SelectDirectory
  | ToggleDarkMode
  | ToggleSettings
  | ToggleSidebar
  | ShowNewEntryModal bool

fun handle :: "jsstring \<Rightarrow> event \<Rightarrow> app \<Rightarrow> app" where
  "handle today (Edit t) s = s\<lparr>content := t\<rparr>"
| "handle today (Elapse n) s = elapse n s"
| "handle today (Settle p r) s = settle today p r s"
| "handle today (SelectEntry i) s = handleSelectEntry i s"
| "handle today GoToToday s = handleGoToToday today s"
| "handle today (SetNewEntryTitle t) s = s\<lparr>newEntryTitle := t\<rparr>"
| "handle today CreateNewEntry s = handleCreateNewEntry s"
| "handle today (DeleteEntry confirmed) s = handleDeleteEntry confirmed s"
| "handle today SelectDirectory s = handleSelectDirectory s"
| "handle today ToggleDarkMode s = s\<lparr>darkMode := \<not> darkMode s\<rparr>"
| "handle today ToggleSettings s = s\<lparr>showSettings := \<not> showSettings s\<rparr>"
| "handle today ToggleSidebar s = s\<lparr>showSidebar := \<not> showSidebar s\<rparr>"
| "handle today (ShowNewEntryModal b) s = s\<lparr>showNewEntryModal := b\<rparr>"

text \<open>
  One event: the handler (or timer callback, or continuation) runs, React renders, the
  effects run. \<open>emitted\<close> of the result is what this event did to the outside.
\<close>

definition step :: "jsstring \<Rightarrow> app \<Rightarrow> event \<Rightarrow> app" where
  "step today s e = (let s0 = s\<lparr>emitted := []\<rparr> in render today s0 (handle today e s0))"

fun run :: "jsstring \<Rightarrow> app \<Rightarrow> event list \<Rightarrow> app" where
  "run today s [] = s"
| "run today s (e # es) = run today (step today s e) es"

fun trace :: "jsstring \<Rightarrow> app \<Rightarrow> event list \<Rightarrow> action list" where
  "trace today s [] = []"
| "trace today s (e # es) = emitted (step today s e) @ trace today (step today s e) es"

text \<open>
  The component after mounting: the initial values of \<^verbatim>\<open>useState\<close>, and the one effect
  that does something with no directory, \<^verbatim>\<open>loadSettings\<close>, suspended at its first
  \<^verbatim>\<open>await\<close>. The argument is what \<^verbatim>\<open>matchMedia\<close> reports.
\<close>

definition init :: "bool \<Rightarrow> app" where
  "init dark =
     \<lparr>content = [], journalDirectory = None, saveStatus = saved, showSettings = False,
      showSidebar = True, showNewEntryModal = False, newEntryTitle = [], entries = [],
      currentEntry = None, darkMode = dark, settingsLoaded = False, timer = None,
      pending = [(0, AwaitGetJournalDirectory)], fresh = 1,
      emitted = [Invoke get_journal_directory]\<rparr>"

definition is_save :: "action \<Rightarrow> bool" where
  "is_save x = (case x of Invoke (save_journal f c d) \<Rightarrow> True | _ \<Rightarrow> False)"

section \<open>Notions used by the theorems\<close>

text \<open>
  The words of a string: its maximal runs of code units that are not whitespace, from left
  to right. \<open>join_sp\<close> joins words with one space (20) between neighbours.
\<close>

function ws_words :: "jsstring \<Rightarrow> jsstring list" where
  "ws_words s =
     (case dropWhile js_ws s of
        [] \<Rightarrow> []
      | c # cs \<Rightarrow>
          (c # takeWhile (\<lambda>x. \<not> js_ws x) cs) # ws_words (dropWhile (\<lambda>x. \<not> js_ws x) cs))"
  by pat_completeness auto
termination
proof (relation "measure length", simp, goal_cases)
  case (1 s c cs)
  have "length (dropWhile (\<lambda>x. \<not> js_ws x) cs) \<le> length cs"
    by (rule length_dropWhile_le)
  moreover have "length (c # cs) \<le> length s"
    using length_dropWhile_le [of js_ws s] 1 by simp
  ultimately show ?case by simp
qed

declare ws_words.simps [simp del]

fun join_sp :: "jsstring list \<Rightarrow> jsstring" where
  "join_sp [] = []"
| "join_sp [w] = w"
| "join_sp (w # v # ws) = w @ 0x20 # join_sp (v # ws)"

text \<open>Stripping trailing whitespace only: the second half of \<open>trim\<close>.\<close>

definition rtrim :: "jsstring \<Rightarrow> jsstring" where
  "rtrim s = rev (dropWhile js_ws (rev s))"

text \<open>The dependencies of all effects agree between two renders: no effect runs.\<close>

definition same_deps :: "app \<Rightarrow> app \<Rightarrow> bool" where
  "same_deps prev cur =
     (journalDirectory prev = journalDirectory cur \<and>
      map_option fst (currentEntry prev) = map_option fst (currentEntry cur) \<and>
      content prev = content cur \<and> darkMode prev = darkMode cur \<and>
      settingsLoaded prev = settingsLoaded cur)"

text \<open>
  A sequence of edits, each of which changes the buffer (the text area reports a change
  only when its value differs), and the events of typing them: before each edit, the time
  since the previous event.
\<close>

fun changes :: "jsstring \<Rightarrow> jsstring list \<Rightarrow> bool" where
  "changes c [] = True"
| "changes c (t # ts) = (t \<noteq> c \<and> changes t ts)"

fun typing :: "(nat \<times> jsstring) list \<Rightarrow> event list" where
  "typing [] = []"
| "typing ((gap, t) # rest) = Elapse gap # Edit t # typing rest"

text \<open>
  Promise numbers and object identities in use are below the next unused number.
\<close>

definition wf :: "app \<Rightarrow> bool" where
  "wf s =
     ((\<forall>p\<in>fst ` set (pending s). p < fresh s) \<and>
      (\<forall>r\<in>fst ` set (entries s). r < fresh s) \<and>
      (\<forall>r\<in>fst ` set_option (currentEntry s). r < fresh s))"

text \<open>
  A backend call on files is in order in a state when its directory argument is a
  non-empty string and the state has a journal directory and, for \<^verbatim>\<open>load_journal\<close>,
  \<^verbatim>\<open>save_journal\<close> and \<^verbatim>\<open>delete_journal\<close>, an open entry. The invariant \<open>guarded\<close> adds
  what keeps that true of later calls: a captured directory or entry that passes a guard
  is matched by the state's.
\<close>

fun call_ok :: "app \<Rightarrow> action \<Rightarrow> bool" where
  "call_ok s (Invoke (list_journal_entries d)) = (d \<noteq> [] \<and> truthy (journalDirectory s))"
| "call_ok s (Invoke (load_journal f d)) =
     (d \<noteq> [] \<and> truthy (journalDirectory s) \<and> currentEntry s \<noteq> None)"
| "call_ok s (Invoke (save_journal f c d)) =
     (d \<noteq> [] \<and> truthy (journalDirectory s) \<and> currentEntry s \<noteq> None)"
| "call_ok s (Invoke (delete_journal f d)) =
     (d \<noteq> [] \<and> truthy (journalDirectory s) \<and> currentEntry s \<noteq> None)"
| "call_ok s _ = True"

fun cont_ok :: "app \<Rightarrow> cont \<Rightarrow> bool" where
  "cont_ok s (AwaitSave c) = (truthy (c_journalDirectory c) \<longrightarrow> truthy (journalDirectory s))"
| "cont_ok s (AwaitDelete d) = (truthy d \<longrightarrow> truthy (journalDirectory s))"
| "cont_ok s _ = True"

definition closure_ok :: "app \<Rightarrow> closure \<Rightarrow> bool" where
  "closure_ok s c =
     (truthy (c_journalDirectory c) \<and> c_currentEntry c \<noteq> None \<longrightarrow>
      truthy (journalDirectory s) \<and> currentEntry s \<noteq> None)"

definition guarded :: "app \<Rightarrow> bool" where
  "guarded s =
     ((\<forall>x\<in>set (emitted s). call_ok s x) \<and>
      (\<forall>q\<in>set (pending s). cont_ok s (snd q)) \<and>
      (\<forall>q\<in>set_option (timer s). closure_ok s (snd q)))"

definition grows :: "app \<Rightarrow> app \<Rightarrow> bool" where
  "grows s s' =
     ((truthy (journalDirectory s) \<longrightarrow> truthy (journalDirectory s')) \<and>
      (currentEntry s \<noteq> None \<longrightarrow> currentEntry s' \<noteq> None))"

text \<open>What an effect body can rely on: the state it builds has the directory of the
  render it reads, and an entry if that render has one.\<close>

definition follows :: "app \<Rightarrow> app \<Rightarrow> bool" where
  "follows cur acc =
     (guarded acc \<and> journalDirectory acc = journalDirectory cur \<and>
      (currentEntry cur \<noteq> None \<longrightarrow> currentEntry acc \<noteq> None))"

text \<open>
  Concrete states for the examples: the day is 2026-01-20, the stored directory is \<^verbatim>\<open>/j\<close>
  and holds no file.
  \<^item> \<open>opened\<close>: the directory has arrived from the settings, today's entry is open, the
    list and the entry's load are pending.
  \<^item> \<open>ready\<close>: they have answered (no stored theme, no entries, no file for today): the
    buffer is empty, the status is saved.
  \<^item> \<open>drafted\<close>: the user has then created the titled entry \<^verbatim>\<open>notes\<close> (no file either)
    and typed \<^verbatim>\<open>abc\<close> half a second ago.
  \<^item> \<open>flushing\<close>: the user has typed \<^verbatim>\<open>abc\<close> into today's entry and the debounce timer
    has fired; the save (promise 5) is in flight.
  \<^item> \<open>kept\<close>: the entry \<^verbatim>\<open>notes\<close> holds \<^verbatim>\<open>abc\<close>, saved and acknowledged, and the list has
    been refreshed.
\<close>

definition today0 :: jsstring where
  "today0 = utf16 ''2026-01-20''"

definition dir0 :: jsstring where
  "dir0 = utf16 ''/j''"

definition opened :: app where
  "opened = run today0 (init False) [Settle 0 (GotString (Some dir0))]"

definition ready :: app where
  "ready =
     run today0 opened
       [Settle 1 (GotBool None), Settle 2 (GotEntries []), Settle 4 (GotString None)]"

definition drafted :: app where
  "drafted =
     run today0 ready
       [SetNewEntryTitle (utf16 ''notes''), CreateNewEntry, Settle 6 (GotString None),
        Edit (utf16 ''abc''), Elapse 500]"

definition flushing :: app where
  "flushing = run today0 ready [Edit (utf16 ''abc''), Elapse 1000]"

definition kept :: app where
  "kept =
     run today0 ready
       [SetNewEntryTitle (utf16 ''notes''), CreateNewEntry, Settle 6 (GotString None),
        Edit (utf16 ''abc''), Elapse 1000, Settle 7 Done,
        Settle 8 (GotEntries
          [\<lparr>filename = utf16 ''notes.md'', entry_type = titled, title = utf16 ''notes'',
            date = None\<rparr>])]"

section \<open>Filename sanitization\<close>

lemma not_ws_replaced: "js_ws (if forbidden c then 0x2D else c) = js_ws c"
  by (auto simp: forbidden_def js_ws_def)

lemma trim_rtrim: "trim s = rtrim (dropWhile js_ws s)"
  by (simp add: trim_def rtrim_def)

lemma rtrim_Nil [simp]: "rtrim [] = []"
  by (simp add: rtrim_def)

lemma rtrim_Nil_iff: "rtrim s = [] \<longleftrightarrow> (\<forall>x\<in>set s. js_ws x)"
  by (simp add: rtrim_def dropWhile_eq_Nil_conv)

lemma rtrim_Cons:
  "rtrim (c # cs) = (if js_ws c \<and> rtrim cs = [] then [] else c # rtrim cs)"
  by (auto simp: rtrim_def dropWhile_append dropWhile_eq_Nil_conv)

lemma dropWhile_rtrim: "dropWhile js_ws (rtrim s) = rtrim (dropWhile js_ws s)"
proof (induction s)
  case Nil
  show ?case by simp
next
  case (Cons x xs)
  show ?case
  proof (cases "js_ws x")
    case True
    show ?thesis
    proof (cases "\<forall>y\<in>set xs. js_ws y")
      case all: True
      with True have "rtrim (x # xs) = []" "dropWhile js_ws (x # xs) = []"
        by (simp_all add: rtrim_Cons rtrim_Nil_iff)
      then show ?thesis by (simp only: rtrim_Nil dropWhile.simps)
    next
      case False
      then have "rtrim xs \<noteq> []" by (simp add: rtrim_Nil_iff)
      with True Cons show ?thesis by (simp add: rtrim_Cons)
    qed
  next
    case False
    then show ?thesis by (simp add: rtrim_Cons)
  qed
qed

lemma collapse_word:
  "collapse_ws (rtrim cs) =
     takeWhile (\<lambda>x. \<not> js_ws x) cs @ collapse_ws (rtrim (dropWhile (\<lambda>x. \<not> js_ws x) cs))"
  by (induction cs) (simp_all add: rtrim_Cons)

lemma collapse_gap:
  assumes "r = [] \<or> js_ws (hd r)"
  shows "collapse_ws (rtrim r) =
     (if dropWhile js_ws r = [] then [] else 0x20 # collapse_ws (trim r))"
proof (cases r)
  case Nil
  then show ?thesis by simp
next
  case (Cons a r')
  with assms have a: "js_ws a" by simp
  show ?thesis
  proof (cases "\<forall>y\<in>set r'. js_ws y")
    case True
    with a Cons show ?thesis by (simp add: rtrim_Cons rtrim_Nil_iff)
  next
    case False
    with a Cons show ?thesis
      by (simp add: rtrim_Cons rtrim_Nil_iff dropWhile_rtrim trim_rtrim)
  qed
qed

lemma join_sp_Cons: "join_sp (w # ws) = (if ws = [] then w else w @ 0x20 # join_sp ws)"
  by (cases ws) simp_all

lemma ws_words_Nil_iff: "ws_words r = [] \<longleftrightarrow> dropWhile js_ws r = []"
  by (subst ws_words.simps) (cases "dropWhile js_ws r"; simp only: list.case; simp)

lemma collapse_trim_words: "collapse_ws (trim s) = join_sp (ws_words s)"
proof (induction s rule: ws_words.induct)
  case (1 s)
  show ?case
  proof (cases "dropWhile js_ws s")
    case Nil
    then show ?thesis by (subst ws_words.simps) (simp only: trim_rtrim list.case, simp)
  next
    case (Cons c cs)
    let ?r = "dropWhile (\<lambda>x. \<not> js_ws x) cs"
    have c: "\<not> js_ws c"
      using hd_dropWhile [of js_ws s] Cons by simp
    have gap: "?r = [] \<or> js_ws (hd ?r)"
      using hd_dropWhile [of "\<lambda>x. \<not> js_ws x" cs] by auto
    have w: "ws_words s = (c # takeWhile (\<lambda>x. \<not> js_ws x) cs) # ws_words ?r"
      by (subst ws_words.simps) (simp only: Cons list.case)
    have "collapse_ws (trim s) = c # collapse_ws (rtrim cs)"
      using c by (simp only: trim_rtrim Cons rtrim_Cons) simp
    also have "\<dots> = (c # takeWhile (\<lambda>x. \<not> js_ws x) cs) @ collapse_ws (rtrim ?r)"
      by (subst collapse_word) simp
    also have "collapse_ws (rtrim ?r) =
        (if ws_words ?r = [] then [] else 0x20 # join_sp (ws_words ?r))"
      by (simp only: collapse_gap [OF gap] "1.IH" [OF Cons] ws_words_Nil_iff)
    finally show ?thesis
      by (simp only: w join_sp_Cons) simp
  qed
qed

lemma dropWhile_ws_replace:
  "dropWhile js_ws (replace_forbidden s) = replace_forbidden (dropWhile js_ws s)"
  by (induction s) (simp_all add: replace_forbidden_def not_ws_replaced)

lemma takeWhile_word_replace:
  "takeWhile (\<lambda>x. \<not> js_ws x) (replace_forbidden s) =
     replace_forbidden (takeWhile (\<lambda>x. \<not> js_ws x) s)"
  by (induction s) (simp_all add: replace_forbidden_def not_ws_replaced)

lemma dropWhile_word_replace:
  "dropWhile (\<lambda>x. \<not> js_ws x) (replace_forbidden s) =
     replace_forbidden (dropWhile (\<lambda>x. \<not> js_ws x) s)"
  by (induction s) (simp_all add: replace_forbidden_def not_ws_replaced)

lemma trim_replace: "trim (replace_forbidden s) = replace_forbidden (trim s)"
proof -
  have "rev (replace_forbidden u) = replace_forbidden (rev u)" for u
    by (simp add: replace_forbidden_def rev_map)
  then show ?thesis
    by (simp add: trim_def dropWhile_ws_replace)
qed

lemma ws_words_replace: "ws_words (replace_forbidden s) = map replace_forbidden (ws_words s)"
proof (induction s rule: ws_words.induct)
  case (1 s)
  show ?case
  proof (cases "dropWhile js_ws s")
    case Nil
    then have "dropWhile js_ws (replace_forbidden s) = []"
      by (simp only: dropWhile_ws_replace) (simp add: replace_forbidden_def)
    then have "ws_words (replace_forbidden s) = []" "ws_words s = []"
      using Nil by (simp_all only: ws_words_Nil_iff)
    then show ?thesis by simp
  next
    case (Cons c cs)
    have "dropWhile js_ws (replace_forbidden s) =
        (if forbidden c then 0x2D else c) # replace_forbidden cs"
      by (simp only: dropWhile_ws_replace Cons) (simp add: replace_forbidden_def)
    then have "ws_words (replace_forbidden s) =
        ((if forbidden c then 0x2D else c)
            # takeWhile (\<lambda>x. \<not> js_ws x) (replace_forbidden cs))
          # ws_words (dropWhile (\<lambda>x. \<not> js_ws x) (replace_forbidden cs))"
      by (subst ws_words.simps) (simp only: list.case)
    moreover have "ws_words s =
        (c # takeWhile (\<lambda>x. \<not> js_ws x) cs) # ws_words (dropWhile (\<lambda>x. \<not> js_ws x) cs)"
      by (subst ws_words.simps) (simp only: Cons list.case)
    ultimately show ?thesis
      using "1.IH" [OF Cons]
      by (simp add: takeWhile_word_replace dropWhile_word_replace)
        (simp add: replace_forbidden_def)
  qed
qed

lemma sanitizedTitle_words:
  "sanitizedTitle t = join_sp (map replace_forbidden (ws_words t))"
  by (simp only: sanitizedTitle_def trim_replace [symmetric] collapse_trim_words
      ws_words_replace)

lemma replace_forbidden_clean: "filter forbidden (replace_forbidden w) = []"
  by (induction w) (simp_all add: replace_forbidden_def forbidden_def)

text \<open>
  C9, as the specification words it, fails: the code trims the title first, so leading
  (and trailing) whitespace is removed, not collapsed to one space. The title \<^verbatim>\<open>" a"\<close>
  gives \<^verbatim>\<open>a.md\<close>, where replacing and collapsing alone would give \<^verbatim>\<open>" a.md"\<close>.
\<close>

theorem titled_filename_not_spec:
  "titled_filename (utf16 '' a'') = utf16 ''a.md'' \<and>
   spec_titled_filename (utf16 '' a'') = utf16 '' a.md'' \<and>
   titled_filename (utf16 '' a'') \<noteq> spec_titled_filename (utf16 '' a'')"
  by code_simp

text \<open>
  C9, amended: the filename of a titled entry is the title's words (its maximal runs of
  non-whitespace), each with every one of the characters \<^verbatim>\<open>< > : " / \ | ? *\<close> replaced
  by \<^verbatim>\<open>-\<close> and nothing else changed, joined by single spaces, followed by \<^verbatim>\<open>.md\<close>. That
  is the specification's sanitization applied to the trimmed title. The title
  \<^verbatim>\<open>My: Trip/Notes?\<close> gives \<^verbatim>\<open>My- Trip-Notes-.md\<close>.
\<close>

theorem titled_filename_sanitized:
  "titled_filename t = join_sp (map replace_forbidden (ws_words t)) @ utf16 ''.md'' \<and>
   titled_filename t = spec_titled_filename (trim t) \<and>
   length (replace_forbidden w) = length w \<and>
   filter forbidden (replace_forbidden w) = [] \<and>
   (i < length w \<and> \<not> forbidden (w ! i) \<longrightarrow> replace_forbidden w ! i = w ! i) \<and>
   (i < length w \<and> forbidden (w ! i) \<longrightarrow> replace_forbidden w ! i = 0x2D) \<and>
   titled_filename (utf16 ''My: Trip/Notes?'') = utf16 ''My- Trip-Notes-.md''"
proof -
  have "titled_filename (utf16 ''My: Trip/Notes?'') = utf16 ''My- Trip-Notes-.md''"
    by code_simp
  moreover have "titled_filename t = spec_titled_filename (trim t)"
    by (simp add: titled_filename_def spec_titled_filename_def sanitizedTitle_def)
  ultimately show ?thesis
    by (simp add: titled_filename_def sanitizedTitle_words replace_forbidden_clean)
      (simp add: replace_forbidden_def)
qed

theorem titled_filename_sanitized_witness:
  "titled_filename (utf16 ''a  b'') = utf16 ''a b.md'' \<and>
   replace_forbidden (utf16 ''a:'') ! 1 = 0x2D \<and> replace_forbidden (utf16 ''a:'') ! 0 = 0x61"
proof -
  have w: "ws_words (utf16 ''a  b'') = [utf16 ''a'', utf16 ''b'']"
    by code_simp
  have "forbidden (utf16 ''a:'' ! 1)" "\<not> forbidden (utf16 ''a:'' ! 0)"
    by code_simp+
  then show ?thesis
    using titled_filename_sanitized [of "utf16 ''a  b''" "utf16 ''a:''" 1]
      titled_filename_sanitized [of "utf16 ''a  b''" "utf16 ''a:''" 0]
    by (simp add: w) (simp add: utf16_def replace_forbidden_def forbidden_def)
qed

section \<open>Renders and single events\<close>

lemma effects_same: "same_deps prev cur \<Longrightarrow> effects today prev cur = cur"
  by (simp add: effects_def same_deps_def)

lemma render_same: "same_deps prev cur \<Longrightarrow> render today prev cur = cur"
  by (simp add: render_def effects_def same_deps_def)

lemma await_fields [simp]:
  "journalDirectory (await x k s) = journalDirectory s"
  "currentEntry (await x k s) = currentEntry s"
  "content (await x k s) = content s"
  "darkMode (await x k s) = darkMode s"
  "settingsLoaded (await x k s) = settingsLoaded s"
  "saveStatus (await x k s) = saveStatus s"
  "timer (await x k s) = timer s"
  "entries (await x k s) = entries s"
  "emitted (await x k s) = emitted s @ [x]"
  "pending (await x k s) = pending s @ [(fresh s, k)]"
  "fresh (await x k s) = Suc (fresh s)"
  by (simp_all add: await_def)

lemma emit_fields [simp]:
  "journalDirectory (emit x s) = journalDirectory s"
  "currentEntry (emit x s) = currentEntry s"
  "content (emit x s) = content s"
  "darkMode (emit x s) = darkMode s"
  "settingsLoaded (emit x s) = settingsLoaded s"
  "saveStatus (emit x s) = saveStatus s"
  "timer (emit x s) = timer s"
  "entries (emit x s) = entries s"
  "emitted (emit x s) = emitted s @ [x]"
  "pending (emit x s) = pending s"
  "fresh (emit x s) = fresh s"
  by (simp_all add: emit_def)

lemma loadEntries_fields [simp]:
  "journalDirectory (loadEntries a d s) = journalDirectory s"
  "currentEntry (loadEntries a d s) = currentEntry s"
  "content (loadEntries a d s) = content s"
  "darkMode (loadEntries a d s) = darkMode s"
  "settingsLoaded (loadEntries a d s) = settingsLoaded s"
  "saveStatus (loadEntries a d s) = saveStatus s"
  "timer (loadEntries a d s) = timer s"
  "entries (loadEntries a d s) = entries s"
  by (simp_all add: loadEntries_def split: option.splits)

lemma handleGoToToday_fields [simp]:
  "journalDirectory (handleGoToToday today s) = journalDirectory s"
  "currentEntry (handleGoToToday today s) = Some (fresh s, todayEntry today)"
  "content (handleGoToToday today s) = content s"
  "darkMode (handleGoToToday today s) = darkMode s"
  "settingsLoaded (handleGoToToday today s) = settingsLoaded s"
  "saveStatus (handleGoToToday today s) = saveStatus s"
  "timer (handleGoToToday today s) = timer s"
  "entries (handleGoToToday today s) = entries s"
  "emitted (handleGoToToday today s) = emitted s"
  "pending (handleGoToToday today s) = pending s"
  by (simp_all add: handleGoToToday_def)

lemma defaultEntry_fields [simp]:
  "journalDirectory (defaultEntry today cur acc) = journalDirectory acc"
  "content (defaultEntry today cur acc) = content acc"
  "darkMode (defaultEntry today cur acc) = darkMode acc"
  "settingsLoaded (defaultEntry today cur acc) = settingsLoaded acc"
  "saveStatus (defaultEntry today cur acc) = saveStatus acc"
  "timer (defaultEntry today cur acc) = timer acc"
  "entries (defaultEntry today cur acc) = entries acc"
  "emitted (defaultEntry today cur acc) = emitted acc"
  "pending (defaultEntry today cur acc) = pending acc"
  by (simp_all add: defaultEntry_def)

lemma loadEntry_fields [simp]:
  "journalDirectory (loadEntry cur acc) = journalDirectory acc"
  "currentEntry (loadEntry cur acc) = currentEntry acc"
  "content (loadEntry cur acc) = content acc"
  "darkMode (loadEntry cur acc) = darkMode acc"
  "settingsLoaded (loadEntry cur acc) = settingsLoaded acc"
  "saveStatus (loadEntry cur acc) = saveStatus acc"
  "timer (loadEntry cur acc) = timer acc"
  "entries (loadEntry cur acc) = entries acc"
  by (simp_all add: loadEntry_def split: option.splits prod.splits)

lemma autoSave_fields [simp]:
  "journalDirectory (autoSave cur acc) = journalDirectory acc"
  "currentEntry (autoSave cur acc) = currentEntry acc"
  "content (autoSave cur acc) = content acc"
  "darkMode (autoSave cur acc) = darkMode acc"
  "settingsLoaded (autoSave cur acc) = settingsLoaded acc"
  "entries (autoSave cur acc) = entries acc"
  "emitted (autoSave cur acc) = emitted acc"
  "pending (autoSave cur acc) = pending acc"
  "fresh (autoSave cur acc) = fresh acc"
  by (simp_all add: autoSave_def)

lemma saveDarkMode_fields [simp]:
  "journalDirectory (saveDarkMode cur acc) = journalDirectory acc"
  "currentEntry (saveDarkMode cur acc) = currentEntry acc"
  "content (saveDarkMode cur acc) = content acc"
  "darkMode (saveDarkMode cur acc) = darkMode acc"
  "settingsLoaded (saveDarkMode cur acc) = settingsLoaded acc"
  "saveStatus (saveDarkMode cur acc) = saveStatus acc"
  "timer (saveDarkMode cur acc) = timer acc"
  "entries (saveDarkMode cur acc) = entries acc"
  "pending (saveDarkMode cur acc) = pending acc"
  "fresh (saveDarkMode cur acc) = fresh acc"
  by (simp_all add: saveDarkMode_def)

lemma effects_fields [simp]:
  "journalDirectory (effects today prev cur) = journalDirectory cur"
  "content (effects today prev cur) = content cur"
  "darkMode (effects today prev cur) = darkMode cur"
  "settingsLoaded (effects today prev cur) = settingsLoaded cur"
  "entries (effects today prev cur) = entries cur"
  by (simp_all add: effects_def Let_def)

lemma effects_currentEntry:
  assumes "currentEntry cur \<noteq> None \<or> \<not> truthy (journalDirectory cur) \<or>
    (journalDirectory prev = journalDirectory cur \<and>
     map_option fst (currentEntry prev) = map_option fst (currentEntry cur))"
  shows "currentEntry (effects today prev cur) = currentEntry cur"
  using assms by (auto simp: effects_def Let_def defaultEntry_def)

lemma effects_currentEntry_None:
  "currentEntry (effects today prev cur) = None \<Longrightarrow> currentEntry cur = None"
  by (auto simp: effects_def Let_def defaultEntry_def split: if_splits)

lemma render_quiescent:
  "effects today (effects today prev cur) (render today prev cur) = render today prev cur"
proof -
  let ?s1 = "effects today prev cur"
  have "currentEntry (effects today cur ?s1) = currentEntry ?s1"
  proof (cases "currentEntry ?s1")
    case None
    then have "currentEntry cur = None" by (rule effects_currentEntry_None)
    with None show ?thesis by (intro effects_currentEntry) simp
  next
    case (Some a)
    then show ?thesis by (intro effects_currentEntry) simp
  qed
  then have "same_deps ?s1 (render today prev cur)"
    by (simp add: same_deps_def render_def)
  then show ?thesis by (rule effects_same)
qed

lemma step_Edit:
  assumes "journalDirectory s = Some dir" "dir \<noteq> []" "currentEntry s = Some (r, e)"
    and "t \<noteq> content s"
  shows "step today s (Edit t) =
    s\<lparr>content := t, saveStatus := unsaved,
      timer := Some (1000, \<lparr>c_journalDirectory = Some dir, c_currentEntry = Some (r, e),
        c_content = t\<rparr>),
      emitted := []\<rparr>"
  using assms
  by (simp add: step_def render_def effects_def autoSave_def truthy_def Let_def)

lemma step_Elapse_wait:
  assumes "timer s = Some (left, c)" "n < left"
  shows "step today s (Elapse n) = s\<lparr>timer := Some (left - n, c), emitted := []\<rparr>"
  using assms
  by (simp add: step_def elapse_def render_same same_deps_def)

lemma step_Elapse_fire:
  assumes "timer s = Some (left, c)" "left \<le> n"
    and "c = \<lparr>c_journalDirectory = Some dir, c_currentEntry = Some (r, e), c_content = t\<rparr>"
    and "dir \<noteq> []"
  shows "step today s (Elapse n) =
    s\<lparr>saveStatus := saving, timer := None, pending := pending s @ [(fresh s, AwaitSave c)],
      fresh := Suc (fresh s), emitted := [Invoke (save_journal (filename e) t dir)]\<rparr>"
  using assms
  by (simp add: step_def elapse_def saveEntry_def await_def render_same same_deps_def)

lemma step_Elapse_idle:
  assumes "timer s = None"
  shows "step today s (Elapse n) = s\<lparr>emitted := []\<rparr>"
  using assms
  by (simp add: step_def elapse_def render_same same_deps_def)

lemma is_save_simps [simp]:
  "is_save (Invoke (save_journal f c d))"
  "\<not> is_save (Invoke (load_journal f d))"
  "\<not> is_save (Invoke (list_journal_entries d))"
  "\<not> is_save (Invoke (delete_journal f d))"
  "\<not> is_save (ConsoleError m)"
  "\<not> is_save (Confirm q)"
  by (simp_all add: is_save_def)

lemma burst_armed:
  assumes "journalDirectory s = Some dir" "dir \<noteq> []" "currentEntry s = Some (r, e)"
    and "timer s = Some (1000, \<lparr>c_journalDirectory = Some dir, c_currentEntry = Some (r, e),
          c_content = content s\<rparr>)"
    and "changes (content s) (map snd rest)" "\<forall>g\<in>set (map fst rest). g < 1000" "1000 \<le> d"
  shows "filter is_save (trace today s (typing rest @ [Elapse d])) =
      [Invoke (save_journal (filename e) (last (content s # map snd rest)) dir)] \<and>
    content (run today s (typing rest @ [Elapse d])) = last (content s # map snd rest)"
  using assms
proof (induction rest arbitrary: s)
  case Nil
  then show ?case
    by (simp add: step_Elapse_fire [where dir = dir and r = r and e = e and t = "content s"])
next
  case (Cons a rest)
  obtain g t where a: "a = (g, t)" by (cases a)
  let ?c = "\<lparr>c_journalDirectory = Some dir, c_currentEntry = Some (r, e),
    c_content = content s\<rparr>"
  let ?s1 = "step today s (Elapse g)"
  let ?s2 = "step today ?s1 (Edit t)"
  from Cons.prems a have g: "g < 1000" and t: "t \<noteq> content s"
    and rest: "changes t (map snd rest)" "\<forall>g\<in>set (map fst rest). g < 1000"
    by simp_all
  have s1: "?s1 = s\<lparr>timer := Some (1000 - g, ?c), emitted := []\<rparr>"
    using Cons.prems(4) g by (rule step_Elapse_wait)
  have s2: "?s2 = s\<lparr>content := t, saveStatus := unsaved,
      timer := Some (1000, \<lparr>c_journalDirectory = Some dir, c_currentEntry = Some (r, e),
        c_content = t\<rparr>),
      emitted := []\<rparr>"
    unfolding s1 using Cons.prems(1-3) t
    by (subst step_Edit [where dir = dir and r = r and e = e]) simp_all
  have "filter is_save (trace today ?s2 (typing rest @ [Elapse d])) =
      [Invoke (save_journal (filename e) (last (content ?s2 # map snd rest)) dir)] \<and>
    content (run today ?s2 (typing rest @ [Elapse d])) = last (content ?s2 # map snd rest)"
  proof (rule Cons.IH)
    show "journalDirectory ?s2 = Some dir" "currentEntry ?s2 = Some (r, e)"
      using Cons.prems(1,3) by (simp_all add: s2)
    show "timer ?s2 = Some (1000, \<lparr>c_journalDirectory = Some dir,
        c_currentEntry = Some (r, e), c_content = content ?s2\<rparr>)"
      by (simp add: s2)
    show "changes (content ?s2) (map snd rest)"
      using rest(1) by (simp add: s2)
  qed (use rest(2) Cons.prems(2,7) in simp_all)
  moreover have "content ?s2 = t" "emitted ?s2 = []"
    by (simp_all add: s2)
  moreover have "emitted ?s1 = []"
    by (simp add: s1)
  ultimately show ?case
    by (simp add: a)
qed

text \<open>
  C1. While an entry is open, an edit that changes the buffer sets the status to unsaved
  and puts a fresh timer of 1000 ms, holding the new buffer, in the place of whatever timer
  was pending; the edit itself issues nothing. So a burst of such edits, each less than
  1000 ms after the event before it, followed by 1000 ms of quiet, issues exactly one
  save: of the last buffer, under the open entry's filename.
\<close>

theorem edits_debounced:
  assumes "journalDirectory s = Some dir" "dir \<noteq> []" "currentEntry s = Some (r, e)"
    and "t \<noteq> content s" "changes t (map snd rest)" "\<forall>g\<in>set (map fst rest). g < 1000"
    and "1000 \<le> d"
  shows "saveStatus (step today s (Edit t)) = unsaved \<and>
    timer (step today s (Edit t)) =
      Some (1000, \<lparr>c_journalDirectory = Some dir, c_currentEntry = Some (r, e),
        c_content = t\<rparr>) \<and>
    emitted (step today s (Edit t)) = [] \<and>
    filter is_save (trace today s (Edit t # typing rest @ [Elapse d])) =
      [Invoke (save_journal (filename e) (last (t # map snd rest)) dir)] \<and>
    content (run today s (Edit t # typing rest @ [Elapse d])) = last (t # map snd rest)"
proof -
  let ?s1 = "step today s (Edit t)"
  have s1: "?s1 = s\<lparr>content := t, saveStatus := unsaved,
      timer := Some (1000, \<lparr>c_journalDirectory = Some dir, c_currentEntry = Some (r, e),
        c_content = t\<rparr>),
      emitted := []\<rparr>"
    using assms(1-4) by (rule step_Edit)
  have "filter is_save (trace today ?s1 (typing rest @ [Elapse d])) =
      [Invoke (save_journal (filename e) (last (content ?s1 # map snd rest)) dir)] \<and>
    content (run today ?s1 (typing rest @ [Elapse d])) = last (content ?s1 # map snd rest)"
    using assms by (intro burst_armed) (simp_all add: s1)
  moreover have "content ?s1 = t" "emitted ?s1 = []" "saveStatus ?s1 = unsaved"
    by (simp_all add: s1)
  ultimately show ?thesis
    by (simp add: s1)
qed

text \<open>
  In \<open>ready\<close> the user types \<^verbatim>\<open>a\<close>, 300 ms later \<^verbatim>\<open>ab\<close>, 999 ms later \<^verbatim>\<open>abc\<close>, and
  stops: one save, of \<^verbatim>\<open>abc\<close>.
\<close>

theorem edits_debounced_witness:
  "journalDirectory ready = Some dir0 \<and> currentEntry ready = Some (3, todayEntry today0) \<and>
   content ready = [] \<and>
   saveStatus (step today0 ready (Edit (utf16 ''a''))) = unsaved \<and>
   emitted (step today0 ready (Edit (utf16 ''a''))) = [] \<and>
   filter is_save (trace today0 ready
     (Edit (utf16 ''a'') # typing [(300, utf16 ''ab''), (999, utf16 ''abc'')] @ [Elapse 1000])) =
     [Invoke (save_journal (utf16 ''2026-01-20.md'') (utf16 ''abc'') dir0)]"
proof -
  have h: "journalDirectory ready = Some dir0" "dir0 \<noteq> []"
    "currentEntry ready = Some (3, todayEntry today0)" "utf16 ''a'' \<noteq> content ready"
    "changes (utf16 ''a'') (map snd [(300::nat, utf16 ''ab''), (999, utf16 ''abc'')])"
    "content ready = []" "filename (todayEntry today0) = utf16 ''2026-01-20.md''"
    by code_simp+
  have g: "\<forall>g\<in>set (map fst [(300::nat, utf16 ''ab''), (999, utf16 ''abc'')]). g < 1000"
    by simp
  have d: "1000 \<le> (1000::nat)" by simp
  have l: "last (utf16 ''a'' # map snd [(300::nat, utf16 ''ab''), (999, utf16 ''abc'')]) =
      utf16 ''abc''"
    by simp
  note t = edits_debounced [OF h(1-5) g d, of today0, unfolded l h(7)]
  show ?thesis
    using t h(1,3,6) by blast
qed

lemma step_Settle:
  assumes "map_of (pending s) p = Some k"
    and "resume today k r (s\<lparr>emitted := [], pending := filter (\<lambda>q. fst q \<noteq> p) (pending s)\<rparr>)
      = Some s'"
  shows "step today s (Settle p r) = render today (s\<lparr>emitted := []\<rparr>) s'"
  using assms by (simp add: step_def settle_def)

lemma render_entry_changed:
  assumes "journalDirectory cur = Some dir" "dir \<noteq> []" "currentEntry cur = Some (r, e)"
    and "journalDirectory prev = Some dir" "map_option fst (currentEntry prev) \<noteq> Some r"
    and "darkMode prev = darkMode cur" "settingsLoaded prev = settingsLoaded cur"
  shows "render today prev cur =
    (await (Invoke (load_journal (filename e) dir)) AwaitLoad (cur\<lparr>timer := None\<rparr>))
      \<lparr>saveStatus := unsaved,
       timer := Some (1000, \<lparr>c_journalDirectory = Some dir, c_currentEntry = Some (r, e),
         c_content = content cur\<rparr>)\<rparr>"
proof -
  have 1: "effects today prev cur =
    (await (Invoke (load_journal (filename e) dir)) AwaitLoad (cur\<lparr>timer := None\<rparr>))
      \<lparr>saveStatus := unsaved,
       timer := Some (1000, \<lparr>c_journalDirectory = Some dir, c_currentEntry = Some (r, e),
         c_content = content cur\<rparr>)\<rparr>"
    using assms
    by (simp add: effects_def Let_def defaultEntry_def loadEntry_def autoSave_def truthy_def)
  have "same_deps cur (effects today prev cur)"
    using assms by (simp add: same_deps_def effects_currentEntry)
  then show ?thesis
    unfolding render_def Let_def by (simp add: effects_same 1)
qed

text \<open>
  C7. When a save is rejected, the status becomes unsaved, one diagnostic goes to the
  console, and nothing else changes: the buffer is as it was, no dialog opens, no backend
  call is made.
\<close>

theorem save_failure_unsaved:
  assumes "map_of (pending s) p = Some (AwaitSave c)"
  shows "step today s (Settle p Failed) =
      s\<lparr>saveStatus := unsaved, pending := filter (\<lambda>q. fst q \<noteq> p) (pending s),
        emitted := [ConsoleError ''Failed to save journal entry:'']\<rparr> \<and>
    saveStatus (step today s (Settle p Failed)) = unsaved \<and>
    content (step today s (Settle p Failed)) = content s \<and>
    emitted (step today s (Settle p Failed)) = [ConsoleError ''Failed to save journal entry:'']"
proof -
  let ?s' = "s\<lparr>saveStatus := unsaved, pending := filter (\<lambda>q. fst q \<noteq> p) (pending s),
        emitted := [ConsoleError ''Failed to save journal entry:'']\<rparr>"
  have "step today s (Settle p Failed) = render today (s\<lparr>emitted := []\<rparr>) ?s'"
    by (intro step_Settle [OF assms]) (simp add: emit_def)
  also have "\<dots> = ?s'"
    by (rule render_same) (simp add: same_deps_def)
  finally show ?thesis by simp
qed

theorem save_failure_unsaved_witness:
  "map_of (pending flushing) 5 =
     Some (AwaitSave \<lparr>c_journalDirectory = Some dir0,
       c_currentEntry = Some (3, todayEntry today0), c_content = utf16 ''abc''\<rparr>) \<and>
   saveStatus flushing = saving \<and>
   saveStatus (step today0 flushing (Settle 5 Failed)) = unsaved \<and>
   content (step today0 flushing (Settle 5 Failed)) = utf16 ''abc'' \<and>
   emitted (step today0 flushing (Settle 5 Failed)) =
     [ConsoleError ''Failed to save journal entry:'']"
proof -
  have h: "map_of (pending flushing) 5 =
     Some (AwaitSave \<lparr>c_journalDirectory = Some dir0,
       c_currentEntry = Some (3, todayEntry today0), c_content = utf16 ''abc''\<rparr>)"
    "saveStatus flushing = saving" "content flushing = utf16 ''abc''"
    by code_simp+
  from save_failure_unsaved [OF h(1), of today0] show ?thesis
    using h by simp
qed

text \<open>
  C6, as stated, fails: the test is \<^verbatim>\<open>content.trim() !== ""\<close> on the content that the
  save carried. A buffer of one space is not empty, it is saved, and the list is not
  refreshed.
\<close>

theorem blank_save_no_refresh:
  "map_of (pending (run today0 ready [Edit (utf16 '' ''), Elapse 1000])) 5 =
     Some (AwaitSave \<lparr>c_journalDirectory = Some dir0,
       c_currentEntry = Some (3, todayEntry today0), c_content = utf16 '' ''\<rparr>) \<and>
   content (run today0 ready [Edit (utf16 '' ''), Elapse 1000, Settle 5 Done]) \<noteq> [] \<and>
   saveStatus (run today0 ready [Edit (utf16 '' ''), Elapse 1000, Settle 5 Done]) = saved \<and>
   emitted (run today0 ready [Edit (utf16 '' ''), Elapse 1000, Settle 5 Done]) = []"
  by code_simp

text \<open>
  C6, amended: when a save is acknowledged, the status becomes saved, and the entry list
  is fetched again if and only if the content that this save carried has a code unit that
  is not whitespace, whatever the buffer holds by then. The directory is non-empty for
  every save that \<open>saveEntry\<close> issues.
\<close>

theorem save_success_refresh:
  assumes "map_of (pending s) p = Some (AwaitSave c)"
    and "c_journalDirectory c = Some dir" "dir \<noteq> []"
  shows "saveStatus (step today s (Settle p Done)) = saved \<and>
    content (step today s (Settle p Done)) = content s \<and>
    emitted (step today s (Settle p Done)) =
      (if trim (c_content c) = [] then [] else [Invoke (list_journal_entries dir)])"
proof -
  let ?s0 = "s\<lparr>emitted := [], pending := filter (\<lambda>q. fst q \<noteq> p) (pending s)\<rparr>"
  let ?s' = "if trim (c_content c) \<noteq> [] then loadEntries False (Some dir) (?s0\<lparr>saveStatus := saved\<rparr>)
    else ?s0\<lparr>saveStatus := saved\<rparr>"
  have "step today s (Settle p Done) = render today (s\<lparr>emitted := []\<rparr>) ?s'"
    using assms(2) by (intro step_Settle [OF assms(1)]) (simp add: Let_def)
  also have "\<dots> = ?s'"
    by (rule render_same) (simp add: same_deps_def)
  finally show ?thesis
    using assms(3) by (simp add: loadEntries_def)
qed

theorem save_success_refresh_witness:
  "map_of (pending flushing) 5 =
     Some (AwaitSave \<lparr>c_journalDirectory = Some dir0,
       c_currentEntry = Some (3, todayEntry today0), c_content = utf16 ''abc''\<rparr>) \<and>
   saveStatus (step today0 flushing (Settle 5 Done)) = saved \<and>
   emitted (step today0 flushing (Settle 5 Done)) = [Invoke (list_journal_entries dir0)]"
proof -
  have h: "map_of (pending flushing) 5 =
     Some (AwaitSave \<lparr>c_journalDirectory = Some dir0,
       c_currentEntry = Some (3, todayEntry today0), c_content = utf16 ''abc''\<rparr>)"
    "dir0 \<noteq> []" "trim (utf16 ''abc'') \<noteq> []"
    by code_simp+
  from save_success_refresh [OF h(1) _ h(2), of today0] show ?thesis
    using h by simp
qed

text \<open>
  C5 fails on the code. The failure is swallowed, but the buffer does not fall back to
  empty: the \<^verbatim>\<open>catch\<close> of \<^verbatim>\<open>loadEntry\<close> only logs, and \<^verbatim>\<open>handleSelectEntry\<close> and
  \<^verbatim>\<open>handleGoToToday\<close> have not cleared the buffer at the switch as \<^verbatim>\<open>handleCreateNewEntry\<close>
  does. In \<open>kept\<close> the buffer holds \<^verbatim>\<open>abc\<close>, the text of \<^verbatim>\<open>notes\<close>; the user goes to today,
  the load of today's file fails, and the buffer still holds \<^verbatim>\<open>abc\<close>, now under today's
  entry, where a second later it is saved.
\<close>

theorem load_failure_buffer_not_empty:
  "map_of (pending (run today0 kept [GoToToday])) 11 = Some AwaitLoad \<and>
   map_option (filename \<circ> snd) (currentEntry (run today0 kept [GoToToday, Settle 11 Failed])) =
     Some (utf16 ''2026-01-20.md'') \<and>
   content (run today0 kept [GoToToday, Settle 11 Failed]) = utf16 ''abc'' \<and>
   content (run today0 kept [GoToToday, Settle 11 Failed]) \<noteq> [] \<and>
   trace today0 kept [GoToToday, Settle 11 Failed, Elapse 1000] =
     [Invoke (load_journal (utf16 ''2026-01-20.md'') dir0),
      ConsoleError ''Failed to load journal entry:'',
      Invoke (save_journal (utf16 ''2026-01-20.md'') (utf16 ''abc'') dir0)]"
  by code_simp

text \<open>
  The general form of what the code does there: the continuation of a failed load writes one
  diagnostic to the console and changes neither the buffer nor the status nor anything
  else (but that its promise is no longer pending). The buffer is empty afterwards only if
  it was empty before.
\<close>

lemma load_failure_keeps_buffer:
  assumes "map_of (pending s) p = Some AwaitLoad"
  shows "step today s (Settle p Failed) =
      s\<lparr>pending := filter (\<lambda>q. fst q \<noteq> p) (pending s),
        emitted := [ConsoleError ''Failed to load journal entry:'']\<rparr> \<and>
    content (step today s (Settle p Failed)) = content s \<and>
    saveStatus (step today s (Settle p Failed)) = saveStatus s"
proof -
  let ?s' = "s\<lparr>pending := filter (\<lambda>q. fst q \<noteq> p) (pending s),
        emitted := [ConsoleError ''Failed to load journal entry:'']\<rparr>"
  have "step today s (Settle p Failed) = render today (s\<lparr>emitted := []\<rparr>) ?s'"
    by (intro step_Settle [OF assms]) (simp add: emit_def)
  also have "\<dots> = ?s'"
    by (rule render_same) (simp add: same_deps_def)
  finally show ?thesis by simp
qed

lemma load_failure_keeps_buffer_example:
  "map_of (pending (run today0 kept [GoToToday])) 11 = Some AwaitLoad \<and>
   content (step today0 (run today0 kept [GoToToday]) (Settle 11 Failed)) = utf16 ''abc'' \<and>
   saveStatus (step today0 (run today0 kept [GoToToday]) (Settle 11 Failed)) = unsaved \<and>
   emitted (step today0 (run today0 kept [GoToToday]) (Settle 11 Failed)) =
     [ConsoleError ''Failed to load journal entry:'']"
proof -
  have h: "map_of (pending (run today0 kept [GoToToday])) 11 = Some AwaitLoad"
    "content (run today0 kept [GoToToday]) = utf16 ''abc''"
    "saveStatus (run today0 kept [GoToToday]) = unsaved"
    by code_simp+
  from load_failure_keeps_buffer [OF h(1), of today0] show ?thesis
    using h by simp
qed

text \<open>
  C4 fails on the code. \<^verbatim>\<open>loadEntry\<close> sets the buffer and then the status \<^verbatim>\<open>saved\<close>, but
  when the buffer changes by that, the debounce effect runs on the new content and sets
  \<^verbatim>\<open>unsaved\<close> again. In \<open>kept\<close> the entry \<^verbatim>\<open>notes\<close> holds \<^verbatim>\<open>abc\<close>, saved; the user goes to
  today, whose file is absent: the buffer is empty and the status is unsaved, and a second
  later the empty buffer is saved under today's filename. \<open>load_resolved\<close> below is the
  general fact.
\<close>

theorem load_absent_after_switch_unsaved:
  "saveStatus kept = saved \<and> content kept = utf16 ''abc'' \<and>
   map_of (pending (run today0 kept [GoToToday])) 11 = Some AwaitLoad \<and>
   content (run today0 kept [GoToToday, Settle 11 (GotString None)]) = [] \<and>
   saveStatus (run today0 kept [GoToToday, Settle 11 (GotString None)]) = unsaved \<and>
   trace today0 kept [GoToToday, Settle 11 (GotString None), Elapse 1000] =
     [Invoke (load_journal (utf16 ''2026-01-20.md'') dir0),
      Invoke (save_journal (utf16 ''2026-01-20.md'') [] dir0)]"
  by code_simp

lemma load_resolved:
  assumes "map_of (pending s) p = Some AwaitLoad"
    and "journalDirectory s = Some dir" "dir \<noteq> []" "currentEntry s = Some (r, e)"
  shows "content (step today s (Settle p (GotString entry))) =
      (case entry of None \<Rightarrow> [] | Some t \<Rightarrow> t) \<and>
    saveStatus (step today s (Settle p (GotString entry))) =
      (if content s = (case entry of None \<Rightarrow> [] | Some t \<Rightarrow> t) then saved else unsaved)"
proof -
  let ?t = "case entry of None \<Rightarrow> [] | Some t \<Rightarrow> t"
  let ?s0 = "s\<lparr>emitted := [], pending := filter (\<lambda>q. fst q \<noteq> p) (pending s)\<rparr>"
  have st: "step today s (Settle p (GotString entry)) =
      render today (s\<lparr>emitted := []\<rparr>) (?s0\<lparr>content := ?t, saveStatus := saved\<rparr>)"
    by (intro step_Settle [OF assms(1)]) simp
  show ?thesis
  proof (cases "content s = ?t")
    case True
    then have "render today (s\<lparr>emitted := []\<rparr>) (?s0\<lparr>content := ?t, saveStatus := saved\<rparr>)
      = ?s0\<lparr>content := ?t, saveStatus := saved\<rparr>"
      by (intro render_same) (simp add: same_deps_def)
    with True show ?thesis by (simp add: st)
  next
    case False
    with assms(2-4) show ?thesis
      by (simp add: st render_def effects_def Let_def autoSave_def truthy_def)
  qed
qed

section \<open>Fresh numbers stay fresh\<close>

lemma wf_upd [simp]:
  "wf (s\<lparr>content := a\<rparr>) = wf s"
  "wf (s\<lparr>journalDirectory := b\<rparr>) = wf s"
  "wf (s\<lparr>saveStatus := c\<rparr>) = wf s"
  "wf (s\<lparr>showSettings := d\<rparr>) = wf s"
  "wf (s\<lparr>showSidebar := e\<rparr>) = wf s"
  "wf (s\<lparr>showNewEntryModal := f\<rparr>) = wf s"
  "wf (s\<lparr>newEntryTitle := g\<rparr>) = wf s"
  "wf (s\<lparr>darkMode := h\<rparr>) = wf s"
  "wf (s\<lparr>settingsLoaded := i\<rparr>) = wf s"
  "wf (s\<lparr>timer := j\<rparr>) = wf s"
  "wf (s\<lparr>emitted := k\<rparr>) = wf s"
  by (simp_all add: wf_def)

lemma wf_await: "wf s \<Longrightarrow> wf (await x k s)"
  by (auto simp: wf_def await_def less_Suc_eq)

lemma wf_emit: "wf s \<Longrightarrow> wf (emit x s)"
  by (simp add: emit_def)

lemma wf_handleGoToToday: "wf s \<Longrightarrow> wf (handleGoToToday today s)"
  by (auto simp: wf_def handleGoToToday_def less_Suc_eq)

lemma wf_setEntries: "wf s \<Longrightarrow> wf (setEntries es s)"
proof -
  assume "wf s"
  moreover have "r < fresh s + length es" if "r \<in> fst ` set (zip [fresh s..<fresh s + length es] es)" for r
  proof -
    from that obtain y where "(r, y) \<in> set (zip [fresh s..<fresh s + length es] es)" by auto
    then have "r \<in> set [fresh s..<fresh s + length es]" by (rule set_zip_leftD)
    then show ?thesis by simp
  qed
  ultimately show ?thesis
    by (simp add: wf_def setEntries_def) (meson trans_less_add1)
qed

lemma wf_loadEntries: "wf s \<Longrightarrow> wf (loadEntries a d s)"
  by (simp add: loadEntries_def wf_await split: option.splits)

lemma wf_saveEntry: "wf s \<Longrightarrow> wf (saveEntry c s)"
  by (simp add: saveEntry_def wf_await split: option.splits prod.splits)

lemma wf_elapse: "wf s \<Longrightarrow> wf (elapse n s)"
  by (simp add: elapse_def wf_saveEntry split: option.splits prod.splits)

lemma wf_handleSelectEntry: "wf s \<Longrightarrow> wf (handleSelectEntry i s)"
  by (auto simp: wf_def handleSelectEntry_def)

lemma wf_handleCreateNewEntry: "wf s \<Longrightarrow> wf (handleCreateNewEntry s)"
  by (auto simp: wf_def handleCreateNewEntry_def less_Suc_eq)

lemma wf_handleDeleteEntry: "wf s \<Longrightarrow> wf (handleDeleteEntry b s)"
  by (simp add: handleDeleteEntry_def Let_def wf_await wf_emit split: option.splits prod.splits)

lemma wf_resume: "wf s \<Longrightarrow> resume today k r s = Some s' \<longrightarrow> wf s'"
  by (cases k; cases r)
    (auto simp: Let_def wf_await wf_emit wf_setEntries wf_handleGoToToday wf_loadEntries
      split: option.splits)

lemma wf_settle: "wf s \<Longrightarrow> wf (settle today p r s)"
proof -
  assume "wf s"
  then have "wf (s\<lparr>pending := filter (\<lambda>q. fst q \<noteq> p) (pending s)\<rparr>)"
    by (auto simp: wf_def)
  then show ?thesis
    using \<open>wf s\<close> wf_resume by (auto simp: settle_def split: option.splits)
qed

lemma wf_handle: "wf s \<Longrightarrow> wf (handle today e s)"
  by (cases e)
    (simp_all add: wf_elapse wf_settle wf_handleSelectEntry wf_handleGoToToday
      wf_handleCreateNewEntry wf_handleDeleteEntry handleSelectDirectory_def wf_await)

lemma wf_effects: "wf cur \<Longrightarrow> wf (effects today prev cur)"
proof -
  assume cur: "wf cur"
  have d: "wf s \<Longrightarrow> wf (defaultEntry today cur s)" for s
    by (simp add: defaultEntry_def wf_handleGoToToday)
  have l: "wf s \<Longrightarrow> wf (loadEntry cur s)" for s
    by (simp add: loadEntry_def wf_await split: option.splits prod.splits)
  have a: "wf s \<Longrightarrow> wf (autoSave cur s)" for s
    by (simp add: autoSave_def wf_def)
  have m: "wf s \<Longrightarrow> wf (saveDarkMode cur s)" for s
    by (simp add: saveDarkMode_def wf_emit)
  have c: "wf s \<Longrightarrow> (\<And>x. wf x \<Longrightarrow> wf (f x)) \<Longrightarrow> wf (if b then f s else s)" for s f b
    by simp
  show ?thesis
    unfolding effects_def Let_def
    by (rule c [OF _ m], rule c [OF _ a], rule c [OF _ l], rule c [OF _ d],
        rule c [OF _ wf_loadEntries], simp add: cur)
qed

lemma wf_step: "wf s \<Longrightarrow> wf (step today s e)"
  by (simp add: step_def render_def Let_def wf_effects wf_handle)

lemma wf_init: "wf (init dark)"
  by (simp add: wf_def init_def)

lemma wf_run: "wf s \<Longrightarrow> wf (run today s es)"
  by (induction es arbitrary: s) (simp_all add: wf_step)

section \<open>Guards\<close>

lemma call_ok_mono: "grows s s' \<Longrightarrow> call_ok s x \<Longrightarrow> call_ok s' x"
  by (induction s x rule: call_ok.induct) (auto simp: grows_def)

lemma cont_ok_mono: "grows s s' \<Longrightarrow> cont_ok s k \<Longrightarrow> cont_ok s' k"
  by (cases k) (auto simp: grows_def)

lemma closure_ok_mono: "grows s s' \<Longrightarrow> closure_ok s c \<Longrightarrow> closure_ok s' c"
  by (auto simp: grows_def closure_ok_def)

lemma guarded_grows:
  assumes "guarded s" "grows s s'"
    and "set (emitted s') \<subseteq> set (emitted s)" "set (pending s') \<subseteq> set (pending s)"
    and "set_option (timer s') \<subseteq> set_option (timer s)"
  shows "guarded s'"
  unfolding guarded_def
proof (intro conjI ballI)
  fix x assume "x \<in> set (emitted s')"
  with assms show "call_ok s' x" by (auto simp: guarded_def intro: call_ok_mono)
next
  fix q assume "q \<in> set (pending s')"
  with assms show "cont_ok s' (snd q)" by (auto simp: guarded_def intro: cont_ok_mono)
next
  fix q assume "q \<in> set_option (timer s')"
  with assms show "closure_ok s' (snd q)" by (auto simp: guarded_def intro: closure_ok_mono)
qed

lemma guarded_cong:
  assumes "journalDirectory s' = journalDirectory s" "currentEntry s' = currentEntry s"
    and "emitted s' = emitted s" "pending s' = pending s" "timer s' = timer s"
  shows "guarded s' = guarded s"
proof -
  have g: "grows s s'" "grows s' s" using assms by (simp_all add: grows_def)
  show ?thesis
    using guarded_grows [OF _ g(1)] guarded_grows [OF _ g(2)] assms by auto
qed

lemma guarded_upd [simp]:
  "guarded (s\<lparr>content := a\<rparr>) = guarded s"
  "guarded (s\<lparr>saveStatus := c\<rparr>) = guarded s"
  "guarded (s\<lparr>showSettings := d\<rparr>) = guarded s"
  "guarded (s\<lparr>showSidebar := e\<rparr>) = guarded s"
  "guarded (s\<lparr>showNewEntryModal := f\<rparr>) = guarded s"
  "guarded (s\<lparr>newEntryTitle := g\<rparr>) = guarded s"
  "guarded (s\<lparr>darkMode := h\<rparr>) = guarded s"
  "guarded (s\<lparr>settingsLoaded := i\<rparr>) = guarded s"
  "guarded (s\<lparr>entries := j\<rparr>) = guarded s"
  "guarded (s\<lparr>fresh := k\<rparr>) = guarded s"
  by (rule guarded_cong; simp)+

lemma guarded_await:
  assumes "guarded s" "call_ok s x" "cont_ok s k"
  shows "guarded (await x k s)"
proof -
  have g: "grows s (await x k s)" by (simp add: grows_def)
  show ?thesis
    unfolding guarded_def using assms
    by (auto simp: guarded_def intro: call_ok_mono [OF g] cont_ok_mono [OF g]
        closure_ok_mono [OF g])
qed

lemma guarded_emit:
  assumes "guarded s" "call_ok s x"
  shows "guarded (emit x s)"
proof -
  have g: "grows s (emit x s)" by (simp add: grows_def)
  show ?thesis
    unfolding guarded_def using assms
    by (auto simp: guarded_def intro: call_ok_mono [OF g] cont_ok_mono [OF g]
        closure_ok_mono [OF g])
qed

lemma guarded_clear [simp]:
  "guarded s \<Longrightarrow> guarded (s\<lparr>emitted := []\<rparr>)"
  "guarded s \<Longrightarrow> guarded (s\<lparr>timer := None\<rparr>)"
  "guarded s \<Longrightarrow> guarded (s\<lparr>pending := filter P (pending s)\<rparr>)"
  by (rule guarded_grows [of s]; simp add: grows_def)+

lemma guarded_setDirectory:
  "guarded s \<Longrightarrow> truthy d \<Longrightarrow> guarded (s\<lparr>journalDirectory := d\<rparr>)"
  by (rule guarded_grows [of s]; simp add: grows_def)

lemma guarded_setCurrentEntry:
  "guarded s \<Longrightarrow> guarded (s\<lparr>currentEntry := Some x\<rparr>)"
  by (rule guarded_grows [of s]; simp add: grows_def)

lemma guarded_handleGoToToday: "guarded s \<Longrightarrow> guarded (handleGoToToday today s)"
  by (simp add: handleGoToToday_def guarded_setCurrentEntry)

lemma guarded_setEntries: "guarded s \<Longrightarrow> guarded (setEntries es s)"
  by (simp add: setEntries_def)

lemma guarded_loadEntries:
  "guarded s \<Longrightarrow> truthy d \<longrightarrow> truthy (journalDirectory s) \<Longrightarrow> guarded (loadEntries a d s)"
  by (auto simp: loadEntries_def truthy_def intro!: guarded_await split: option.splits)

lemma guarded_saveEntry:
  assumes "guarded s" "closure_ok s c"
  shows "guarded (saveEntry c s)"
proof (cases "c_journalDirectory c")
  case None
  with assms show ?thesis by (simp add: saveEntry_def)
next
  case dir: (Some dir)
  show ?thesis
  proof (cases "c_currentEntry c")
    case None
    with assms dir show ?thesis by (simp add: saveEntry_def)
  next
    case (Some re)
    obtain r e where re: "re = (r, e)" by (cases re)
    show ?thesis
    proof (cases "dir = []")
      case True
      with assms dir Some re show ?thesis by (simp add: saveEntry_def)
    next
      case False
      with assms(2) dir Some have "truthy (journalDirectory s)" "currentEntry s \<noteq> None"
        by (simp_all add: closure_ok_def truthy_def)
      with assms(1) dir Some re False show ?thesis
        by (auto simp: saveEntry_def intro!: guarded_await)
    qed
  qed
qed

lemma guarded_elapse: "guarded s \<Longrightarrow> guarded (elapse n s)"
proof (cases "timer s")
  case None
  assume "guarded s" with None show ?thesis by (simp add: elapse_def)
next
  case (Some lc)
  assume g: "guarded s"
  obtain left c where lc: "lc = (left, c)" by (cases lc)
  from g Some lc have c: "closure_ok s c" by (simp add: guarded_def)
  have w: "guarded (s\<lparr>timer := Some (left - n, c)\<rparr>)"
  proof -
    have "grows s (s\<lparr>timer := Some (left - n, c)\<rparr>)" by (simp add: grows_def)
    then show ?thesis
      using g c unfolding guarded_def
      by (auto intro: call_ok_mono cont_ok_mono closure_ok_mono)
  qed
  have "closure_ok (s\<lparr>timer := None\<rparr>) c"
    using c by (simp add: closure_ok_def)
  then have "guarded (saveEntry c (s\<lparr>timer := None\<rparr>))"
    using g by (intro guarded_saveEntry) simp_all
  with w Some lc show ?thesis by (simp add: elapse_def)
qed

lemma guarded_handleSelectEntry: "guarded s \<Longrightarrow> guarded (handleSelectEntry i s)"
  by (simp add: handleSelectEntry_def guarded_setCurrentEntry)

lemma guarded_handleCreateNewEntry: "guarded s \<Longrightarrow> guarded (handleCreateNewEntry s)"
proof -
  assume "guarded s"
  then have "guarded (s\<lparr>currentEntry := Some x\<rparr>)" for x
    by (rule guarded_setCurrentEntry)
  then show ?thesis
    using \<open>guarded s\<close> by (simp add: handleCreateNewEntry_def)
qed

lemma guarded_handleDeleteEntry: "guarded s \<Longrightarrow> guarded (handleDeleteEntry b s)"
  by (auto simp: handleDeleteEntry_def Let_def truthy_def
      intro!: guarded_await guarded_emit split: option.splits prod.splits)

lemma guarded_resume:
  "guarded s \<Longrightarrow> cont_ok s k \<Longrightarrow> resume today k r s = Some s' \<longrightarrow> guarded s'"
proof (cases k)
  case AwaitGetJournalDirectory
  assume "guarded s" with AwaitGetJournalDirectory show ?thesis
    by (cases r) (auto intro!: guarded_await guarded_emit guarded_setDirectory)
next
  case AwaitGetDarkMode
  assume "guarded s" with AwaitGetDarkMode show ?thesis
    by (cases r) (auto intro!: guarded_emit split: option.splits)
next
  case AwaitOpen
  assume "guarded s" with AwaitOpen show ?thesis
    by (cases r)
      (auto simp: truthy_def intro!: guarded_await guarded_emit guarded_setDirectory
        split: option.splits)
next
  case AwaitSetJournalDirectory
  assume "guarded s" with AwaitSetJournalDirectory show ?thesis
    by (cases r) (auto intro!: guarded_emit)
next
  case (AwaitList awaited)
  assume "guarded s" with AwaitList show ?thesis
    by (cases r)
      (auto simp: Let_def intro!: guarded_emit guarded_handleGoToToday guarded_setEntries)
next
  case AwaitLoad
  assume "guarded s" with AwaitLoad show ?thesis
    by (cases r) (auto intro!: guarded_emit)
next
  case (AwaitSave c)
  assume "guarded s" "cont_ok s k"
  with AwaitSave show ?thesis
    by (cases r) (auto simp: Let_def intro!: guarded_emit guarded_loadEntries)
next
  case (AwaitDelete d)
  assume "guarded s" "cont_ok s k"
  with AwaitDelete show ?thesis
    by (cases r) (auto intro!: guarded_emit guarded_loadEntries guarded_handleGoToToday)
qed

lemma guarded_settle: "guarded s \<Longrightarrow> guarded (settle today p r s)"
proof (cases "map_of (pending s) p")
  case None
  assume "guarded s" with None show ?thesis by (simp add: settle_def)
next
  case (Some k)
  assume g: "guarded s"
  let ?s0 = "s\<lparr>pending := filter (\<lambda>q. fst q \<noteq> p) (pending s)\<rparr>"
  from Some have "(p, k) \<in> set (pending s)" by (rule map_of_SomeD)
  with g have "cont_ok s k" by (auto simp: guarded_def)
  moreover have "grows s ?s0" by (simp add: grows_def)
  ultimately have "cont_ok ?s0 k" by (rule cont_ok_mono [rotated])
  moreover have "guarded ?s0" using g by simp
  ultimately have "resume today k r ?s0 = Some s' \<longrightarrow> guarded s'" for s'
    by (rule guarded_resume [rotated])
  with g Some show ?thesis by (auto simp: settle_def split: option.splits)
qed

lemma guarded_handle: "guarded s \<Longrightarrow> guarded (handle today e s)"
  by (cases e)
    (simp_all add: guarded_elapse guarded_settle guarded_handleSelectEntry
      guarded_handleGoToToday guarded_handleCreateNewEntry guarded_handleDeleteEntry
      handleSelectDirectory_def guarded_await)

lemma guarded_effects: "guarded cur \<Longrightarrow> guarded (effects today prev cur)"
proof -
  assume cur: "guarded cur"
  have t: "follows cur (if b then cur\<lparr>timer := None\<rparr> else cur)" for b
    using cur by (simp add: follows_def)
  have e: "follows cur s \<Longrightarrow> follows cur (loadEntries False (journalDirectory cur) s)" for s
    by (simp add: follows_def guarded_loadEntries)
  have d: "follows cur s \<Longrightarrow> follows cur (defaultEntry today cur s)" for s
    by (simp add: follows_def defaultEntry_def guarded_handleGoToToday)
  have l: "follows cur s \<Longrightarrow> follows cur (loadEntry cur s)" for s
    by (auto simp: follows_def loadEntry_def truthy_def intro!: guarded_await
        split: option.splits prod.splits)
  have a: "follows cur s \<Longrightarrow> follows cur (autoSave cur s)" for s
  proof -
    assume f: "follows cur s"
    let ?c = "\<lparr>c_journalDirectory = journalDirectory cur, c_currentEntry = currentEntry cur,
      c_content = content cur\<rparr>"
    let ?s' = "s\<lparr>saveStatus := unsaved, timer := Some (1000, ?c)\<rparr>"
    have "grows s ?s'" by (simp add: grows_def)
    moreover have "closure_ok ?s' ?c" using f by (auto simp: follows_def closure_ok_def)
    ultimately have "guarded ?s'"
      using f unfolding follows_def guarded_def
      by (auto intro: call_ok_mono cont_ok_mono)
    with f show ?thesis by (auto simp: follows_def autoSave_def)
  qed
  have m: "follows cur s \<Longrightarrow> follows cur (saveDarkMode cur s)" for s
    by (simp add: follows_def saveDarkMode_def guarded_emit)
  have c: "follows cur s \<Longrightarrow> (\<And>x. follows cur x \<Longrightarrow> follows cur (f x)) \<Longrightarrow>
      follows cur (if b then f s else s)" for s f b
    by simp
  have "follows cur (effects today prev cur)"
    unfolding effects_def Let_def
    by (rule c [OF _ m], rule c [OF _ a], rule c [OF _ l], rule c [OF _ d],
        rule c [OF _ e], rule t)
  then show ?thesis by (simp add: follows_def)
qed

lemma guarded_step: "guarded s \<Longrightarrow> guarded (step today s e)"
  by (simp add: step_def render_def Let_def guarded_effects guarded_handle)

lemma guarded_init: "guarded (init dark)"
  by (simp add: guarded_def init_def)

lemma guarded_run: "guarded s \<Longrightarrow> guarded (run today s es)"
  by (induction es arbitrary: s) (simp_all add: guarded_step)

text \<open>
  C10. In every run from the mounted component, every \<^verbatim>\<open>list_journal_entries\<close>,
  \<^verbatim>\<open>load_journal\<close>, \<^verbatim>\<open>save_journal\<close> and \<^verbatim>\<open>delete_journal\<close> that an event issues has a
  non-empty directory argument and is issued in a state with a journal directory, and the
  last three in a state with an open entry. The four operations that issue them do nothing
  at all when the directory they see is \<^verbatim>\<open>null\<close> or empty, or (but for \<^verbatim>\<open>loadEntries\<close>) when
  the entry they see is \<^verbatim>\<open>null\<close>.
\<close>

theorem backend_calls_guarded:
  "list_all (call_ok (step today (run today (init dark) es) e))
     (emitted (step today (run today (init dark) es) e)) \<and>
   (\<not> truthy d \<longrightarrow> loadEntries a d s = s) \<and>
   (\<not> truthy (journalDirectory cur) \<or> currentEntry cur = None \<longrightarrow> loadEntry cur s = s) \<and>
   (\<not> truthy (c_journalDirectory c) \<or> c_currentEntry c = None \<longrightarrow> saveEntry c s = s) \<and>
   (\<not> truthy (journalDirectory s) \<or> currentEntry s = None \<longrightarrow> handleDeleteEntry b s = s)"
proof -
  have "guarded (step today (run today (init dark) es) e)"
    by (intro guarded_step guarded_run guarded_init)
  then have "list_all (call_ok (step today (run today (init dark) es) e))
     (emitted (step today (run today (init dark) es) e))"
    by (simp add: guarded_def list_all_iff)
  then show ?thesis
    by (auto simp: truthy_def loadEntries_def loadEntry_def saveEntry_def handleDeleteEntry_def
        split: option.splits prod.splits)
qed

theorem backend_calls_guarded_witness:
  "emitted opened =
     [Invoke get_dark_mode, Invoke (list_journal_entries dir0),
      Invoke (load_journal (utf16 ''2026-01-20.md'') dir0)] \<and>
   list_all (call_ok opened) (emitted opened) \<and>
   truthy (journalDirectory opened) \<and> currentEntry opened \<noteq> None \<and>
   \<not> truthy (journalDirectory (init False)) \<and>
   loadEntries False None opened = opened \<and>
   loadEntry (init False) opened = opened \<and>
   saveEntry \<lparr>c_journalDirectory = None, c_currentEntry = None, c_content = utf16 ''abc''\<rparr>
     opened = opened \<and>
   handleDeleteEntry True (init False) = init False"
proof -
  have h: "emitted opened =
     [Invoke get_dark_mode, Invoke (list_journal_entries dir0),
      Invoke (load_journal (utf16 ''2026-01-20.md'') dir0)]"
    "truthy (journalDirectory opened)" "currentEntry opened \<noteq> None"
    "\<not> truthy (journalDirectory (init False))"
    by code_simp+
  have o: "step today0 (run today0 (init False) []) (Settle 0 (GotString (Some dir0))) = opened"
    by (simp add: opened_def)
  have i: "journalDirectory (init False) = None" "currentEntry (init False) = None"
    by (simp_all add: init_def)
  note t1 = backend_calls_guarded [of today0 False "[]" "Settle 0 (GotString (Some dir0))" None
      False opened "init False"
      "\<lparr>c_journalDirectory = None, c_currentEntry = None, c_content = utf16 ''abc''\<rparr>" True,
      unfolded o]
  note t2 = backend_calls_guarded [of today0 False "[]" "Settle 0 (GotString (Some dir0))" None
      False "init False" "init False"
      "\<lparr>c_journalDirectory = None, c_currentEntry = None, c_content = utf16 ''abc''\<rparr>" True,
      unfolded o]
  have "list_all (call_ok opened) (emitted opened)"
    using t1 by blast
  moreover have "loadEntries False None opened = opened"
    using t1 by (simp add: truthy_def)
  moreover have "loadEntry (init False) opened = opened"
    using t1 i by (simp add: truthy_def)
  moreover have "saveEntry \<lparr>c_journalDirectory = None, c_currentEntry = None,
      c_content = utf16 ''abc''\<rparr> opened = opened"
    using t1 by (simp add: truthy_def)
  moreover have "handleDeleteEntry True (init False) = init False"
    using t2 i by (simp add: truthy_def)
  ultimately show ?thesis
    using h by blast
qed

section \<open>Creating and deleting entries\<close>



text \<open>
  C3 fails on the code. Creating the entry empties the buffer, but \<^verbatim>\<open>setCurrentEntry\<close> runs
  the debounce effect, which cannot tell opening an entry from editing it: with no edit at
  all, the empty buffer is saved under the new filename one second later, although
  \<^verbatim>\<open>loadEntry\<close> has marked the entry \<^verbatim>\<open>saved\<close>. In \<open>ready\<close> the user creates \<^verbatim>\<open>notes\<close> and
  waits. Whether the load of \<^verbatim>\<open>notes.md\<close> answers absent or is rejected (as it may be for a
  file that exists), \<^verbatim>\<open>save_journal\<close> is called with the empty string.
\<close>

theorem create_saves_without_edit:
  "trace today0 ready [SetNewEntryTitle (utf16 ''notes''), CreateNewEntry,
      Settle 6 (GotString None), Elapse 1000] =
     [Invoke (load_journal (utf16 ''notes.md'') dir0),
      Invoke (save_journal (utf16 ''notes.md'') [] dir0)] \<and>
   saveStatus (run today0 ready [SetNewEntryTitle (utf16 ''notes''), CreateNewEntry,
      Settle 6 (GotString None)]) = saved \<and>
   content (run today0 ready [SetNewEntryTitle (utf16 ''notes''), CreateNewEntry,
      Settle 6 (GotString None)]) = [] \<and>
   trace today0 ready [SetNewEntryTitle (utf16 ''notes''), CreateNewEntry,
      Settle 6 Failed, Elapse 1000] =
     [Invoke (load_journal (utf16 ''notes.md'') dir0),
      ConsoleError ''Failed to load journal entry:'',
      Invoke (save_journal (utf16 ''notes.md'') [] dir0)]"
  by code_simp

text \<open>
  The general form of what the code does there: creating a titled entry (a title that is
  not blank, a directory configured) empties the buffer, opens the entry under its
  sanitized filename and issues the load of that file; once 1000 ms have passed with no
  other event, the empty buffer is saved under the new filename.
\<close>

lemma create_defers_save:
  assumes "journalDirectory s = Some dir" "dir \<noteq> []" "trim (newEntryTitle s) \<noteq> []" "wf s"
  shows "content (step today s CreateNewEntry) = [] \<and>
    currentEntry (step today s CreateNewEntry) =
      Some (fresh s,
        \<lparr>filename = titled_filename (newEntryTitle s), entry_type = titled,
         title = sanitizedTitle (newEntryTitle s), date = None\<rparr>) \<and>
    emitted (step today s CreateNewEntry) =
      [Invoke (load_journal (titled_filename (newEntryTitle s)) dir)] \<and>
    (n < 1000 \<longrightarrow> emitted (step today (step today s CreateNewEntry) (Elapse n)) = []) \<and>
    (1000 \<le> n \<longrightarrow> emitted (step today (step today s CreateNewEntry) (Elapse n)) =
      [Invoke (save_journal (titled_filename (newEntryTitle s)) [] dir)])"
proof -
  let ?new = "\<lparr>filename = titled_filename (newEntryTitle s), entry_type = titled,
         title = sanitizedTitle (newEntryTitle s), date = None\<rparr>"
  let ?s0 = "s\<lparr>emitted := []\<rparr>"
  let ?cur = "?s0\<lparr>currentEntry := Some (fresh s, ?new), fresh := Suc (fresh s), content := [],
    newEntryTitle := [], showNewEntryModal := False\<rparr>"
  let ?c = "\<lparr>c_journalDirectory = Some dir, c_currentEntry = Some (fresh s, ?new),
         c_content = []\<rparr>"
  let ?s' = "(await (Invoke (load_journal (titled_filename (newEntryTitle s)) dir)) AwaitLoad
      (?cur\<lparr>timer := None\<rparr>))\<lparr>saveStatus := unsaved, timer := Some (1000, ?c)\<rparr>"
  have "map_option fst (currentEntry ?s0) \<noteq> Some (fresh s)"
    using assms(4) by (cases "currentEntry s") (auto simp: wf_def)
  then have "render today ?s0 ?cur =
      (await (Invoke (load_journal (filename ?new) dir)) AwaitLoad (?cur\<lparr>timer := None\<rparr>))
        \<lparr>saveStatus := unsaved,
         timer := Some (1000, \<lparr>c_journalDirectory = Some dir,
           c_currentEntry = Some (fresh s, ?new), c_content = content ?cur\<rparr>)\<rparr>"
    using assms(1,2) by (intro render_entry_changed) simp_all
  then have "render today ?s0 ?cur = ?s'"
    by simp
  then have s': "step today s CreateNewEntry = ?s'"
    using assms(3) by (simp add: step_def handleCreateNewEntry_def)
  have t: "timer ?s' = Some (1000, ?c)" by simp
  have "emitted (step today ?s' (Elapse n)) = []" if "n < 1000"
    by (subst step_Elapse_wait [OF t that]) simp
  moreover have "emitted (step today ?s' (Elapse n)) =
      [Invoke (save_journal (titled_filename (newEntryTitle s)) [] dir)]" if "1000 \<le> n"
    using assms(2)
    by (subst step_Elapse_fire [OF t that, where dir = dir and r = "fresh s" and e = ?new
          and t = "[]"]) simp_all
  ultimately show ?thesis
    unfolding s' by simp
qed

lemma create_defers_save_example:
  "journalDirectory (run today0 ready [SetNewEntryTitle (utf16 ''notes'')]) = Some dir0 \<and>
   trim (newEntryTitle (run today0 ready [SetNewEntryTitle (utf16 ''notes'')])) \<noteq> [] \<and>
   wf (run today0 ready [SetNewEntryTitle (utf16 ''notes'')]) \<and>
   content (step today0 (run today0 ready [SetNewEntryTitle (utf16 ''notes'')])
     CreateNewEntry) = [] \<and>
   emitted (step today0 (run today0 ready [SetNewEntryTitle (utf16 ''notes'')])
     CreateNewEntry) = [Invoke (load_journal (utf16 ''notes.md'') dir0)] \<and>
   emitted (step today0 (step today0 (run today0 ready [SetNewEntryTitle (utf16 ''notes'')])
     CreateNewEntry) (Elapse 999)) = [] \<and>
   emitted (step today0 (step today0 (run today0 ready [SetNewEntryTitle (utf16 ''notes'')])
     CreateNewEntry) (Elapse 1000)) = [Invoke (save_journal (utf16 ''notes.md'') [] dir0)]"
proof -
  let ?s = "run today0 ready [SetNewEntryTitle (utf16 ''notes'')]"
  have h: "journalDirectory ?s = Some dir0" "dir0 \<noteq> []" "trim (newEntryTitle ?s) \<noteq> []"
    "wf ?s" "titled_filename (newEntryTitle ?s) = utf16 ''notes.md''"
    by code_simp+
  from create_defers_save [OF h(1-4), of today0 999] create_defers_save [OF h(1-4), of today0 1000]
  show ?thesis
    using h by simp
qed

text \<open>
  C2 fails on the code. A switch cancels the pending timer, but the debounce effect runs
  again for the new entry while the buffer still holds the old entry's text:
  \<^verbatim>\<open>handleSelectEntry\<close> and \<^verbatim>\<open>handleGoToToday\<close> do not clear it as \<^verbatim>\<open>handleCreateNewEntry\<close>
  does, and only a load that succeeds within the second replaces it. In \<open>drafted\<close> the
  entry \<^verbatim>\<open>notes\<close> holds the unflushed \<^verbatim>\<open>abc\<close> with 500 ms left on its timer; the user goes to
  today, the load of today's file fails, and a second later \<^verbatim>\<open>abc\<close> is saved under today's
  filename. That is the only save of the run.
\<close>

theorem switch_saves_interim_buffer:
  "filter is_save (trace today0 drafted [GoToToday, Settle 8 Failed, Elapse 1000]) =
     [Invoke (save_journal (utf16 ''2026-01-20.md'') (utf16 ''abc'') dir0)] \<and>
   map_option (filename \<circ> snd) (currentEntry drafted) = Some (utf16 ''notes.md'') \<and>
   content drafted = utf16 ''abc'' \<and>
   map_option fst (timer drafted) = Some 500"
  by code_simp





end
